theory Spec2Isabelle
  imports Complex_Main
begin

section \<open>The vaccine-mandate decision model (vaccine\_mandate\_model.py)\<close>

text \<open>
  The class \<open>VaccineMandateModel\<close> holds one attribute, the dictionary \<open>params\<close>, and its
  methods read it, overwrite entries of it and (in \<open>set_parameters\<close>) print warnings.
  The embedding keeps these effects visible: every method is a function from the program
  state to an outcome and the state it leaves behind, and every Python exception is a
  value \<open>Inl e\<close> of the outcome, with the state as it was when the exception was raised.

  Numbers: the parameters and the swept values are Python \<open>int\<close>s and \<open>float\<close>s, read
  here as real numbers (overflow, infinities, NaN and numpy scalars are outside the
  model; rounding is written out where a property depends on it). The operator \<open>**\<close> is the one place where Python leaves the reals: a
  negative base with a non-integer exponent gives a \<open>complex\<close>, and ordering comparisons
  on a \<open>complex\<close> raise \<open>TypeError\<close>.
\<close>

subsection \<open>State, exceptions and sequencing\<close>

record model_state =
  params :: "string \<rightharpoonup> real"   \<comment> \<open>\<open>self.params\<close>\<close>
  stdout :: "string list"         \<comment> \<open>the lines written by \<open>print\<close>, oldest first\<close>

datatype py_error = KeyError string | TypeError | ZeroDivisionError

type_synonym 'a prog = "model_state \<Rightarrow> (py_error + 'a) \<times> model_state"

definition py_return :: "'a \<Rightarrow> 'a prog" where
  "py_return x = (\<lambda>s. (Inr x, s))"

definition py_raise :: "py_error \<Rightarrow> 'a prog" where
  "py_raise e = (\<lambda>s. (Inl e, s))"

definition py_bind :: "'a prog \<Rightarrow> ('a \<Rightarrow> 'b prog) \<Rightarrow> 'b prog" where
  "py_bind m f = (\<lambda>s. case m s of (Inl e, s') \<Rightarrow> (Inl e, s') | (Inr x, s') \<Rightarrow> f x s')"

definition py_lift :: "py_error + 'a \<Rightarrow> 'a prog" where
  "py_lift r = (\<lambda>s. (r, s))"

definition getitem :: "string \<Rightarrow> real prog" where
  \<comment> \<open>\<open>self.params[key]\<close> as an expression\<close>
  "getitem key = (\<lambda>s. case params s key of
       None \<Rightarrow> (Inl (KeyError key), s)
     | Some v \<Rightarrow> (Inr v, s))"

definition setitem :: "string \<Rightarrow> real \<Rightarrow> unit prog" where
  \<comment> \<open>\<open>self.params[key] = v\<close>\<close>
  "setitem key v = (\<lambda>s. (Inr (), s\<lparr>params := (params s)(key \<mapsto> v)\<rparr>))"

definition print :: "string \<Rightarrow> unit prog" where
  \<comment> \<open>\<open>print(line)\<close>: one more line on standard output\<close>
  "print line = (\<lambda>s. (Inr (), s\<lparr>stdout := stdout s @ [line]\<rparr>))"

subsection \<open>Python numbers\<close>

datatype pyval = PyFloat real | PyComplex complex

definition to_complex :: "pyval \<Rightarrow> complex" where
  "to_complex x = (case x of PyFloat a \<Rightarrow> complex_of_real a | PyComplex z \<Rightarrow> z)"

definition py_add :: "pyval \<Rightarrow> pyval \<Rightarrow> pyval" where
  "py_add x y = (case (x, y) of
       (PyFloat a, PyFloat b) \<Rightarrow> PyFloat (a + b)
     | _ \<Rightarrow> PyComplex (to_complex x + to_complex y))"

definition py_sub :: "pyval \<Rightarrow> pyval \<Rightarrow> pyval" where
  "py_sub x y = (case (x, y) of
       (PyFloat a, PyFloat b) \<Rightarrow> PyFloat (a - b)
     | _ \<Rightarrow> PyComplex (to_complex x - to_complex y))"

definition py_mul :: "pyval \<Rightarrow> pyval \<Rightarrow> pyval" where
  "py_mul x y = (case (x, y) of
       (PyFloat a, PyFloat b) \<Rightarrow> PyFloat (a * b)
     | _ \<Rightarrow> PyComplex (to_complex x * to_complex y))"

definition py_neg :: "pyval \<Rightarrow> pyval" where
  "py_neg x = (case x of PyFloat a \<Rightarrow> PyFloat (- a) | PyComplex z \<Rightarrow> PyComplex (- z))"

definition py_gt :: "pyval \<Rightarrow> pyval \<Rightarrow> py_error + bool" where
  \<comment> \<open>\<open>x > y\<close>: not supported between instances of \<open>complex\<close>\<close>
  "py_gt x y = (case (x, y) of
       (PyFloat a, PyFloat b) \<Rightarrow> Inr (b < a)
     | _ \<Rightarrow> Inl TypeError)"

definition is_integer :: "real \<Rightarrow> bool" where
  "is_integer y = (y = of_int \<lfloor>y\<rfloor>)"

definition float_pow :: "real \<Rightarrow> real \<Rightarrow> py_error + pyval" where
  \<comment> \<open>\<open>x ** y\<close> on floats: \<open>x ** 0\<close> is 1, zero to a negative power raises, a negative base
      with a non-integer exponent is handed to the complex power
      \<open>|x| ** y * (cos (pi * y) + i * sin (pi * y))\<close>\<close>
  "float_pow x y =
     (if y = 0 then Inr (PyFloat 1)
      else if x = 0 then (if y < 0 then Inl ZeroDivisionError else Inr (PyFloat 0))
      else if 0 < x then Inr (PyFloat (x powr y))
      else if is_integer y then Inr (PyFloat (x powi \<lfloor>y\<rfloor>))
      else Inr (PyComplex (rcis ((- x) powr y) (pi * y))))"

subsection \<open>Construction\<close>

definition default_params :: "string \<rightharpoonup> real" where
  "default_params = map_of
     [(''baseline_deaths'', 1000),
      (''vaccine_efficacy'', 9 / 10),
      (''voluntary_adoption'', 6 / 10),
      (''mandate_adoption'', 9 / 10),
      (''value_of_life'', 10000000),
      (''freedom_value'', 400000000),
      (''enforcement_cost'', 150000000),
      (''risk_aversion'', 1)]"

definition init :: "model_state" where
  \<comment> \<open>\<open>VaccineMandateModel()\<close> in a program that has printed nothing yet\<close>
  "init = \<lparr>params = default_params, stdout = []\<rparr>"

subsection \<open>The utility calculations\<close>

definition calculate_deaths :: "real \<Rightarrow> real prog" where
  "calculate_deaths adoption_rate =
     (let vaccinated = adoption_rate;
          unvaccinated = 1 - adoption_rate
      in py_bind (getitem ''baseline_deaths'') (\<lambda>b1.
         py_bind (getitem ''vaccine_efficacy'') (\<lambda>e.
         let vaccinated_deaths = b1 * vaccinated * (1 - e)
         in py_bind (getitem ''baseline_deaths'') (\<lambda>b2.
            let unvaccinated_deaths = b2 * unvaccinated
            in py_return (vaccinated_deaths + unvaccinated_deaths)))))"

definition calculate_lives_saved :: "real \<Rightarrow> real prog" where
  "calculate_lives_saved adoption_rate =
     py_bind (calculate_deaths adoption_rate) (\<lambda>deaths_with_adoption.
     py_bind (getitem ''baseline_deaths'') (\<lambda>deaths_without_vaccination.
     py_return (deaths_without_vaccination - deaths_with_adoption)))"

definition calculate_freedom_utility :: "bool \<Rightarrow> real prog" where
  "calculate_freedom_utility is_mandate =
     (if is_mandate then
        (let population = 1
         in py_bind (getitem ''freedom_value'') (\<lambda>f. py_return (- f * population)))
      else py_return 0)"

definition calculate_enforcement_costs :: "bool \<Rightarrow> real prog" where
  "calculate_enforcement_costs is_mandate =
     (if is_mandate then py_bind (getitem ''enforcement_cost'') (\<lambda>c. py_return (- c))
      else py_return 0)"

definition calculate_life_utility :: "bool \<Rightarrow> pyval prog" where
  "calculate_life_utility is_mandate =
     py_bind (if is_mandate
              then py_bind (getitem ''mandate_adoption'') calculate_lives_saved
              else py_bind (getitem ''voluntary_adoption'') calculate_lives_saved)
       (\<lambda>lives_saved.
     let diminishing_factor = 9 / 10
     in py_bind (py_lift (float_pow lives_saved diminishing_factor)) (\<lambda>effective_lives_saved.
        py_bind (getitem ''value_of_life'') (\<lambda>v.
        py_return (py_mul effective_lives_saved (PyFloat v)))))"

definition calculate_total_utility :: "bool \<Rightarrow> pyval prog" where
  \<comment> \<open>the test \<open>total >= 0\<close> raises \<open>TypeError\<close> on a complex \<open>total\<close>\<close>
  "calculate_total_utility is_mandate =
     py_bind (calculate_life_utility is_mandate) (\<lambda>life_utility.
     py_bind (calculate_freedom_utility is_mandate) (\<lambda>freedom_utility.
     py_bind (calculate_enforcement_costs is_mandate) (\<lambda>enforcement_costs.
     let total = py_add (py_add life_utility (PyFloat freedom_utility))
                        (PyFloat enforcement_costs)
     in case total of
          PyComplex z \<Rightarrow> py_raise TypeError
        | PyFloat t \<Rightarrow>
            if 0 \<le> t then
              py_bind (getitem ''risk_aversion'') (\<lambda>r. py_lift (float_pow t r))
            else
              py_bind (getitem ''risk_aversion'') (\<lambda>r.
              py_bind (py_lift (float_pow (- t) r)) (\<lambda>p.
              py_return (py_neg p))))))"

definition make_decision :: "(bool \<times> pyval \<times> pyval) prog" where
  "make_decision =
     py_bind (calculate_total_utility True) (\<lambda>utility_with_mandate.
     py_bind (calculate_total_utility False) (\<lambda>utility_without_mandate.
     py_bind (py_lift (py_gt utility_with_mandate utility_without_mandate)) (\<lambda>gt.
     if gt then py_return (True, utility_with_mandate, utility_without_mandate)
     else py_return (False, utility_with_mandate, utility_without_mandate))))"

subsection \<open>Updating parameters\<close>

definition unknown_parameter_warning :: "string \<Rightarrow> string" where
  "unknown_parameter_warning key =
     ''Warning: Unknown parameter '' @ [CHR 0x27] @ key @ [CHR 0x27]"

definition contains :: "string \<Rightarrow> bool prog" where
  \<comment> \<open>\<open>key in self.params\<close>\<close>
  "contains key = (\<lambda>s. (Inr (params s key \<noteq> None), s))"

fun set_parameters :: "(string \<times> real) list \<Rightarrow> unit prog" where
  \<comment> \<open>\<open>kwargs.items()\<close> is the list of pairs, in the order of the call\<close>
  "set_parameters [] = py_return ()"
| "set_parameters ((key, v) # kwargs) =
     py_bind (contains key) (\<lambda>known.
     py_bind (if known then setitem key v else print (unknown_parameter_warning key)) (\<lambda>_.
     set_parameters kwargs))"

subsection \<open>Sensitivity sweeps\<close>

text \<open>
  A row of the one-parameter sweep has five fixed columns. A row of the two-parameter
  sweep is keyed by the two parameter names themselves, so it stays a dictionary.
  \<open>pd.DataFrame(results)\<close> keeps one row per element of \<open>results\<close>, in order; the frame is
  modelled by that list.
\<close>

record sweep_row =
  val :: real
  decision :: string
  utility_mandate :: pyval
  utility_voluntary :: pyval
  utility_difference :: pyval

datatype cell = Num real | Str string

definition decision_label :: "bool \<Rightarrow> string" where
  "decision_label d = (if d then ''Mandate'' else ''Voluntary'')"

fun sensitivity_loop :: "string \<Rightarrow> real list \<Rightarrow> sweep_row list \<Rightarrow> sweep_row list prog" where
  "sensitivity_loop parameter [] results = py_return results"
| "sensitivity_loop parameter (v # values) results =
     py_bind (setitem parameter v) (\<lambda>_.
     py_bind make_decision (\<lambda>(d, util_mandate, util_voluntary).
     sensitivity_loop parameter values
       (results @ [\<lparr>val = v,
                     decision = decision_label d,
                     utility_mandate = util_mandate,
                     utility_voluntary = util_voluntary,
                     utility_difference = py_sub util_mandate util_voluntary\<rparr>])))"

definition sensitivity_analysis :: "string \<Rightarrow> real list \<Rightarrow> sweep_row list prog" where
  "sensitivity_analysis parameter values =
     py_bind (getitem parameter) (\<lambda>original_value.
     py_bind (sensitivity_loop parameter values []) (\<lambda>results.
     py_bind (setitem parameter original_value) (\<lambda>_.
     py_return results)))"

definition two_way_row :: "string \<Rightarrow> real \<Rightarrow> string \<Rightarrow> real \<Rightarrow> bool \<Rightarrow> (string \<rightharpoonup> cell)" where
  \<comment> \<open>the dictionary display \<open>{param1: val1, param2: val2, "decision": ...}\<close>: a later key
      overwrites an equal earlier one\<close>
  "two_way_row param1 val1 param2 val2 d =
     (Map.empty(param1 \<mapsto> Num val1, param2 \<mapsto> Num val2,
                ''decision'' \<mapsto> Str (decision_label d)))"

fun two_way_inner ::
  "string \<Rightarrow> real \<Rightarrow> string \<Rightarrow> real list \<Rightarrow> (string \<rightharpoonup> cell) list
     \<Rightarrow> (string \<rightharpoonup> cell) list prog" where
  "two_way_inner param1 val1 param2 [] results = py_return results"
| "two_way_inner param1 val1 param2 (val2 # values2) results =
     py_bind (setitem param1 val1) (\<lambda>_.
     py_bind (setitem param2 val2) (\<lambda>_.
     py_bind make_decision (\<lambda>(d, _, _).
     two_way_inner param1 val1 param2 values2
       (results @ [two_way_row param1 val1 param2 val2 d]))))"

fun two_way_outer ::
  "string \<Rightarrow> real list \<Rightarrow> string \<Rightarrow> real list \<Rightarrow> (string \<rightharpoonup> cell) list
     \<Rightarrow> (string \<rightharpoonup> cell) list prog" where
  "two_way_outer param1 [] param2 values2 results = py_return results"
| "two_way_outer param1 (val1 # values1) param2 values2 results =
     py_bind (two_way_inner param1 val1 param2 values2 results) (\<lambda>results'.
     two_way_outer param1 values1 param2 values2 results')"

definition two_way_analysis ::
  "string \<Rightarrow> real list \<Rightarrow> string \<Rightarrow> real list \<Rightarrow> (string \<rightharpoonup> cell) list prog" where
  "two_way_analysis param1 values1 param2 values2 =
     py_bind (getitem param1) (\<lambda>original_value1.
     py_bind (getitem param2) (\<lambda>original_value2.
     py_bind (two_way_outer param1 values1 param2 values2 []) (\<lambda>results.
     py_bind (setitem param1 original_value1) (\<lambda>_.
     py_bind (setitem param2 original_value2) (\<lambda>_.
     py_return results)))))"

subsection \<open>Notions used in the statements\<close>

definition parameter_names :: "string list" where
  \<comment> \<open>the keys of the dictionary built by the constructor\<close>
  "parameter_names =
     [''baseline_deaths'', ''vaccine_efficacy'', ''voluntary_adoption'', ''mandate_adoption'',
      ''value_of_life'', ''freedom_value'', ''enforcement_cost'', ''risk_aversion'']"

definition with_param :: "model_state \<Rightarrow> string \<Rightarrow> real \<Rightarrow> model_state" where
  \<comment> \<open>the state right after \<open>self.params[key] = v\<close>\<close>
  "with_param s key v = s\<lparr>params := (params s)(key \<mapsto> v)\<rparr>"

definition adoption_key :: "bool \<Rightarrow> string" where
  \<comment> \<open>the adoption rate that \<open>calculate_life_utility\<close> selects\<close>
  "adoption_key is_mandate = (if is_mandate then ''mandate_adoption'' else ''voluntary_adoption'')"

definition read_only :: "'a prog \<Rightarrow> bool" where
  \<comment> \<open>a computation that leaves every state as it found it, also when it raises\<close>
  "read_only m = (\<forall>s. snd (m s) = s)"

definition sweep_row_at :: "model_state \<Rightarrow> real \<Rightarrow> sweep_row \<Rightarrow> bool" where
  \<comment> \<open>\<open>r\<close> is the row recorded for the swept value \<open>v\<close> when \<open>make_decision\<close> runs in \<open>s\<close>\<close>
  "sweep_row_at s v r =
     (\<exists>d um uv. fst (make_decision s) = Inr (d, um, uv)
        \<and> r = \<lparr>val = v, decision = decision_label d, utility_mandate = um,
                 utility_voluntary = uv, utility_difference = py_sub um uv\<rparr>)"

definition two_way_row_at ::
  "model_state \<Rightarrow> string \<Rightarrow> real \<Rightarrow> string \<Rightarrow> real \<Rightarrow> (string \<rightharpoonup> cell) \<Rightarrow> bool" where
  \<comment> \<open>\<open>r\<close> is the row recorded for the pair \<open>(val1, val2)\<close> when \<open>make_decision\<close> runs in \<open>s\<close>\<close>
  "two_way_row_at s param1 val1 param2 val2 r =
     (\<exists>d um uv. fst (make_decision s) = Inr (d, um, uv)
        \<and> r = two_way_row param1 val1 param2 val2 d)"

text \<open>
  The calculations above are over the real numbers; the program computes in floating
  point, where every arithmetic operation delivers the rounded exact result. Where a
  property depends on that, \<open>calculate_deaths\<close> is taken with the rounding written out:
  \<open>rnd\<close> is applied to the result of each operation, in the order in which Python
  evaluates the expressions. With the identity for \<open>rnd\<close> it is \<open>calculate_deaths\<close>.
\<close>

definition calculate_deaths_rounded :: "(real \<Rightarrow> real) \<Rightarrow> real \<Rightarrow> real prog" where
  "calculate_deaths_rounded rnd adoption_rate =
     (let vaccinated = adoption_rate;
          unvaccinated = rnd (1 - adoption_rate)
      in py_bind (getitem ''baseline_deaths'') (\<lambda>b1.
         py_bind (getitem ''vaccine_efficacy'') (\<lambda>e.
         let vaccinated_deaths = rnd (rnd (b1 * vaccinated) * rnd (1 - e))
         in py_bind (getitem ''baseline_deaths'') (\<lambda>b2.
            let unvaccinated_deaths = rnd (b2 * unvaccinated)
            in py_return (rnd (vaccinated_deaths + unvaccinated_deaths))))))"

text \<open>
  The two nested loops of \<open>two_way_analysis\<close> written as one loop over the list of pairs.
  It serves the proofs only: \<open>two_way_outer\<close> over \<open>values1\<close> and \<open>values2\<close> is this loop over
  \<open>List.product values1 values2\<close>.
\<close>

fun grid_loop ::
  "string \<Rightarrow> string \<Rightarrow> (real \<times> real) list \<Rightarrow> (string \<rightharpoonup> cell) list
     \<Rightarrow> (string \<rightharpoonup> cell) list prog" where
  "grid_loop param1 param2 [] results = py_return results"
| "grid_loop param1 param2 ((val1, val2) # pairs) results =
     py_bind (setitem param1 val1) (\<lambda>_.
     py_bind (setitem param2 val2) (\<lambda>_.
     py_bind make_decision (\<lambda>(d, _, _).
     grid_loop param1 param2 pairs
       (results @ [two_way_row param1 val1 param2 val2 d]))))"

text \<open>Two concrete models for the examples: one whose utilities tie, and the default
  model after \<open>set_parameters(vaccine_efficacy=-0.5)\<close>, where vaccination costs lives.\<close>

definition tie_state :: model_state where
  "tie_state = \<lparr>params = map_of
     [(''baseline_deaths'', 1),
      (''vaccine_efficacy'', 1),
      (''voluntary_adoption'', 0),
      (''mandate_adoption'', 1),
      (''value_of_life'', 10),
      (''freedom_value'', 6),
      (''enforcement_cost'', 4),
      (''risk_aversion'', 1)], stdout = []\<rparr>"

definition negative_efficacy :: model_state where
  "negative_efficacy = with_param init ''vaccine_efficacy'' (- (1 / 2))"

section \<open>Properties\<close>

subsection \<open>Running the basic steps\<close>

lemma py_lift_apply: "py_lift r s = (r, s)"
  by (simp add: py_lift_def)

lemma py_return_apply: "py_return x s = (Inr x, s)"
  by (simp add: py_return_def)

lemma py_raise_apply: "py_raise e s = (Inl e, s)"
  by (simp add: py_raise_def)

lemma setitem_apply: "setitem key v s = (Inr (), with_param s key v)"
  by (simp add: setitem_def with_param_def)

lemma getitem_apply:
  "getitem key s = (case params s key of None \<Rightarrow> Inl (KeyError key) | Some v \<Rightarrow> Inr v, s)"
  by (simp add: getitem_def split: option.splits)

lemma bind_getitem:
  "py_bind (getitem key) f s =
     (case params s key of None \<Rightarrow> (Inl (KeyError key), s) | Some v \<Rightarrow> f v s)"
  by (simp add: py_bind_def getitem_def split: option.splits)

lemma bind_return: "py_bind (py_return x) f s = f x s"
  by (simp add: py_bind_def py_return_def)

lemma bind_lift:
  "py_bind (py_lift r) f s = (case r of Inl e \<Rightarrow> (Inl e, s) | Inr x \<Rightarrow> f x s)"
  by (simp add: py_bind_def py_lift_def split: sum.splits)

lemma with_param_twice: "with_param (with_param s p a) p b = with_param s p b"
  by (simp add: with_param_def)

lemma with_param_restore: "params s p = Some v \<Longrightarrow> with_param s p v = s"
  by (simp add: with_param_def map_upd_triv)

lemma with_param_grid:
  "with_param (with_param (with_param (with_param s p1 a) p2 b) p1 c) p2 d
     = with_param (with_param s p1 c) p2 d"
  by (cases "p1 = p2") (simp_all add: with_param_def fun_upd_twist)

lemma params_with_param: "params (with_param s p v) = (params s)(p \<mapsto> v)"
  by (simp add: with_param_def)

lemma stdout_with_param: "stdout (with_param s key v) = stdout s"
  by (simp add: with_param_def)

lemma dom_with_param: "params s p \<noteq> None \<Longrightarrow> dom (params (with_param s p v)) = dom (params s)"
  by (auto simp: params_with_param)

lemma with_param_restore_grid:
  assumes "params s p1 = Some o1" and "params s p2 = Some o2"
  shows "with_param (with_param s p1 o1) p2 o2 = s"
  using assms by (simp add: with_param_restore)

subsection \<open>The calculations only read the state\<close>

lemma read_only_return: "read_only (py_return x)"
  by (simp add: read_only_def py_return_def)
lemma read_only_raise: "read_only (py_raise e)"
  by (simp add: read_only_def py_raise_def)
lemma read_only_lift: "read_only (py_lift r)"
  by (simp add: read_only_def py_lift_def)
lemma read_only_getitem: "read_only (getitem k)"
  by (simp add: read_only_def getitem_def split: option.splits)
lemma read_only_bind: "read_only m \<Longrightarrow> (\<And>x. read_only (f x)) \<Longrightarrow> read_only (py_bind m f)"
  by (auto simp: read_only_def py_bind_def split: prod.splits sum.splits) (metis snd_conv)+

lemmas read_only_intros = read_only_return read_only_raise read_only_lift read_only_getitem read_only_bind

lemma read_only_run: "read_only m \<Longrightarrow> m s = (fst (m s), s)"
  by (metis prod.collapse read_only_def)

lemma bind_read_only:
  "read_only m \<Longrightarrow>
   py_bind m f s = (case fst (m s) of Inl e \<Rightarrow> (Inl e, s) | Inr x \<Rightarrow> f x s)"
proof -
  assume "read_only m"
  then have "snd (m s) = s" by (simp add: read_only_def)
  then show ?thesis
    by (cases "m s") (auto simp: py_bind_def split: sum.splits)
qed

lemma read_only_calculate_deaths: "read_only (calculate_deaths a)"
  unfolding calculate_deaths_def Let_def by (intro read_only_intros)

lemma read_only_calculate_lives_saved: "read_only (calculate_lives_saved a)"
  unfolding calculate_lives_saved_def by (intro read_only_intros read_only_calculate_deaths)

lemma read_only_calculate_freedom_utility: "read_only (calculate_freedom_utility m)"
  unfolding calculate_freedom_utility_def Let_def by (cases m) (auto intro!: read_only_intros)

lemma read_only_calculate_enforcement_costs: "read_only (calculate_enforcement_costs m)"
  unfolding calculate_enforcement_costs_def by (cases m) (auto intro!: read_only_intros)

lemma read_only_calculate_life_utility: "read_only (calculate_life_utility m)"
  unfolding calculate_life_utility_def Let_def
  by (cases m) (auto intro!: read_only_intros read_only_calculate_lives_saved)

lemma read_only_calculate_total_utility: "read_only (calculate_total_utility m)"
  unfolding calculate_total_utility_def Let_def
  by (intro read_only_intros read_only_calculate_life_utility
        read_only_calculate_freedom_utility read_only_calculate_enforcement_costs)
     (auto split: pyval.splits intro!: read_only_intros)

lemma read_only_make_decision: "read_only make_decision"
  unfolding make_decision_def
  by (intro read_only_intros read_only_calculate_total_utility) (auto intro!: read_only_intros)

lemma make_decision_state: "snd (make_decision s) = s"
  using read_only_make_decision by (simp add: read_only_def)

lemma make_decision_apply: "make_decision s = (fst (make_decision s), s)"
  using read_only_make_decision by (rule read_only_run)

text \<open>
  C9. \<open>make_decision\<close> and the \<open>calculate_*\<close> helpers leave the state (the parameter
  dictionary and the printed output) exactly as they found it, whether they return or
  raise; so a second \<open>make_decision\<close> right after a first one gives the same outcome.
\<close>

theorem make_decision_pure:
  "snd (make_decision s) = s
   \<and> snd (calculate_total_utility m s) = s
   \<and> snd (calculate_life_utility m s) = s
   \<and> snd (calculate_freedom_utility m s) = s
   \<and> snd (calculate_enforcement_costs m s) = s
   \<and> snd (calculate_lives_saved a s) = s
   \<and> snd (calculate_deaths a s) = s
   \<and> fst (make_decision (snd (make_decision s))) = fst (make_decision s)"
  using read_only_make_decision read_only_calculate_total_utility
    read_only_calculate_life_utility read_only_calculate_freedom_utility
    read_only_calculate_enforcement_costs read_only_calculate_lives_saved
    read_only_calculate_deaths
  by (simp add: read_only_def)

subsection \<open>The decision\<close>

lemma float_pow_nonneg: "0 \<le> t \<Longrightarrow> float_pow t r = Inr u \<Longrightarrow> \<exists>a. u = PyFloat a"
  by (auto simp: float_pow_def split: if_splits)

lemma float_pow_complex: "float_pow t r = Inr (PyComplex z) \<Longrightarrow> t < 0"
  by (auto simp: float_pow_def split: if_splits)

lemma float_pow_returns: "0 \<le> x \<Longrightarrow> 0 \<le> y \<Longrightarrow> \<exists>a. float_pow x y = Inr (PyFloat a)"
  by (simp add: float_pow_def)

lemma float_pow_negative:
  "l < 0 \<Longrightarrow> float_pow l (9 / 10) = Inr (PyComplex (rcis ((- l) powr (9 / 10)) (pi * (9 / 10))))"
  by (simp add: float_pow_def is_integer_def)

lemma total_utility_is_float:
  assumes "fst (calculate_total_utility m s) = Inr u"
  shows "\<exists>a. u = PyFloat a"
  using assms
  unfolding calculate_total_utility_def Let_def
  by (auto simp: bind_read_only read_only_calculate_life_utility
        read_only_calculate_freedom_utility read_only_calculate_enforcement_costs
        read_only_getitem bind_lift py_lift_apply py_return_apply py_raise_apply py_neg_def
      split: sum.splits pyval.splits if_splits dest: float_pow_complex float_pow_nonneg)

lemma make_decision_outcome:
  "(fst (make_decision s) = Inr (d, um, uv)) =
     (\<exists>a b. fst (calculate_total_utility True s) = Inr (PyFloat a)
          \<and> fst (calculate_total_utility False s) = Inr (PyFloat b)
          \<and> um = PyFloat a \<and> uv = PyFloat b \<and> d = (b < a))"
proof -
  show ?thesis
  proof (cases "fst (calculate_total_utility True s)")
    case (Inl e)
    then show ?thesis
      by (simp add: make_decision_def bind_read_only read_only_calculate_total_utility)
  next
    case (Inr u1)
    then obtain a where a: "u1 = PyFloat a" using total_utility_is_float by blast
    show ?thesis
    proof (cases "fst (calculate_total_utility False s)")
      case (Inl e)
      with Inr show ?thesis
        by (simp add: make_decision_def bind_read_only read_only_calculate_total_utility)
    next
      case r2: (Inr u2)
      then obtain b where b: "u2 = PyFloat b" using total_utility_is_float by blast
      from Inr r2 a b show ?thesis
        by (auto simp: make_decision_def bind_read_only read_only_calculate_total_utility
              bind_lift py_gt_def py_return_apply)
    qed
  qed
qed

text \<open>
  C1. \<open>make_decision\<close> returns a triple \<open>(d, um, uv)\<close> exactly when both
  \<open>calculate_total_utility(True)\<close> and \<open>calculate_total_utility(False)\<close> return; then \<open>um\<close>
  and \<open>uv\<close> are those two utilities (real numbers) and \<open>d\<close> is \<open>True\<close> (Mandate) exactly
  when \<open>um > uv\<close>. In particular equal utilities give \<open>False\<close> (Voluntary).
\<close>

theorem make_decision_spec:
  "((fst (make_decision s) = Inr (d, um, uv)) =
      (\<exists>a b. fst (calculate_total_utility True s) = Inr (PyFloat a)
           \<and> fst (calculate_total_utility False s) = Inr (PyFloat b)
           \<and> um = PyFloat a \<and> uv = PyFloat b \<and> d = (b < a)))
   \<and> (fst (make_decision s) = Inr (d, um, uv) \<longrightarrow> um = uv \<longrightarrow> \<not> d)"
  using make_decision_outcome[of s d um uv] by auto

lemmas prog_defs = py_bind_def py_return_def py_raise_def py_lift_def getitem_def setitem_def
lemmas calc_defs = calculate_total_utility_def calculate_life_utility_def
  calculate_freedom_utility_def calculate_enforcement_costs_def calculate_lives_saved_def
  calculate_deaths_def
lemmas num_defs = float_pow_def py_add_def py_mul_def py_neg_def py_sub_def py_gt_def to_complex_def is_integer_def

lemmas eval_defs = make_decision_def calc_defs prog_defs num_defs with_param_def tie_state_def

lemma tie_T: "fst (calculate_total_utility True tie_state) = Inr (PyFloat 0)"
  by (simp add: tie_state_def calc_defs prog_defs num_defs)

lemma tie_F: "fst (calculate_total_utility False tie_state) = Inr (PyFloat 0)"
  by (simp add: tie_state_def calc_defs prog_defs num_defs)

text \<open>A tie: lives worth 10 are saved only under the mandate, which costs 6 + 4.\<close>

theorem make_decision_spec_witness:
  "fst (make_decision tie_state) = Inr (False, PyFloat 0, PyFloat 0)"
  using make_decision_spec [of tie_state False "PyFloat 0" "PyFloat 0"] tie_T tie_F
  by simp

subsection \<open>Expected deaths and lives saved\<close>

lemma calculate_deaths_value:
  assumes "params s ''baseline_deaths'' = Some b" "params s ''vaccine_efficacy'' = Some e"
  shows "calculate_deaths a s = (Inr (b * a * (1 - e) + b * (1 - a)), s)"
  using assms by (simp add: calculate_deaths_def bind_getitem py_return_apply)

lemma calculate_lives_saved_value:
  assumes "params s ''baseline_deaths'' = Some b" "params s ''vaccine_efficacy'' = Some e"
  shows "calculate_lives_saved a s = (Inr (b - (b * a * (1 - e) + b * (1 - a))), s)"
  using assms calculate_deaths_value[OF assms, of a]
  by (simp add: calculate_lives_saved_def py_bind_def getitem_apply py_return_apply)

lemma init_params:
  "params init = map_of
     [(''baseline_deaths'', 1000),
      (''vaccine_efficacy'', 9 / 10),
      (''voluntary_adoption'', 6 / 10),
      (''mandate_adoption'', 9 / 10),
      (''value_of_life'', 10000000),
      (''freedom_value'', 400000000),
      (''enforcement_cost'', 150000000),
      (''risk_aversion'', 1)]"
  by (simp add: init_def default_params_def)

lemma init_dom: "dom (params init) = set parameter_names"
  by (auto simp: init_def default_params_def parameter_names_def)

lemma init_keys: "set parameter_names \<subseteq> dom (params init)"
  by (simp add: init_dom)

lemma keys_with_param:
  "set parameter_names \<subseteq> dom (params s) \<Longrightarrow>
   set parameter_names \<subseteq> dom (params (with_param s p v))"
  by (auto simp: params_with_param)

lemma calculate_deaths_rounded_value:
  assumes "params s ''baseline_deaths'' = Some b" "params s ''vaccine_efficacy'' = Some e"
  shows "calculate_deaths_rounded rnd a s =
           (Inr (rnd (rnd (rnd (b * a) * rnd (1 - e)) + rnd (b * rnd (1 - a)))), s)"
  using assms by (simp add: calculate_deaths_rounded_def bind_getitem py_return_apply)

lemma calculate_deaths_rounded_exact: "calculate_deaths_rounded (\<lambda>x. x) a = calculate_deaths a"
  by (simp add: calculate_deaths_rounded_def calculate_deaths_def)

text \<open>
  C7, amended. With \<open>baseline_deaths >= 0\<close> and an adoption rate strictly between 0 and 1,
  \<open>calculate_deaths\<close> never increases when \<open>vaccine_efficacy\<close> increases: for \<open>e1 < e2\<close> the
  deaths computed with \<open>e2\<close> are at most those computed with \<open>e1\<close>, all other parameters
  being those of one state \<open>s\<close>. This holds in exact arithmetic and with any rounding of
  the operations that is monotone and keeps 0, as floating-point rounding does. The
  decrease need not be strict.
\<close>

theorem calculate_deaths_never_increases:
  assumes "mono rnd" and "rnd 0 = 0"
    and "params s ''baseline_deaths'' = Some b" and "0 \<le> b"
    and "0 < a" and "a < 1" and "e1 < e2"
  shows "(\<exists>d1 d2.
            fst (calculate_deaths_rounded rnd a (with_param s ''vaccine_efficacy'' e1)) = Inr d1
          \<and> fst (calculate_deaths_rounded rnd a (with_param s ''vaccine_efficacy'' e2)) = Inr d2
          \<and> d2 \<le> d1)
       \<and> (\<exists>d1 d2.
            fst (calculate_deaths a (with_param s ''vaccine_efficacy'' e1)) = Inr d1
          \<and> fst (calculate_deaths a (with_param s ''vaccine_efficacy'' e2)) = Inr d2
          \<and> d2 \<le> d1)"
proof -
  have rounded: "\<exists>d1 d2.
            fst (calculate_deaths_rounded r a (with_param s ''vaccine_efficacy'' e1)) = Inr d1
          \<and> fst (calculate_deaths_rounded r a (with_param s ''vaccine_efficacy'' e2)) = Inr d2
          \<and> d2 \<le> d1"
    if m: "mono r" and z: "r 0 = 0" for r :: "real \<Rightarrow> real"
  proof -
    let ?d = "\<lambda>e. r (r (r (b * a) * r (1 - e)) + r (b * r (1 - a)))"
    have run: "fst (calculate_deaths_rounded r a (with_param s ''vaccine_efficacy'' e)) = Inr (?d e)"
      for e
      using assms(3)
      by (subst calculate_deaths_rounded_value[where b = b and e = e])
         (simp_all add: with_param_def)
    have "0 \<le> b * a" using assms(4,5) by simp
    then have "r 0 \<le> r (b * a)" by (rule monoD[OF m])
    then have nonneg: "0 \<le> r (b * a)" using z by simp
    have "1 - e2 \<le> 1 - e1" using assms(7) by simp
    then have "r (1 - e2) \<le> r (1 - e1)" by (rule monoD[OF m])
    then have "r (b * a) * r (1 - e2) \<le> r (b * a) * r (1 - e1)"
      using nonneg by (rule mult_left_mono)
    then have "r (r (b * a) * r (1 - e2)) \<le> r (r (b * a) * r (1 - e1))"
      by (rule monoD[OF m])
    then have "r (r (b * a) * r (1 - e2)) + r (b * r (1 - a))
             \<le> r (r (b * a) * r (1 - e1)) + r (b * r (1 - a))"
      by simp
    then have "?d e2 \<le> ?d e1" by (rule monoD[OF m])
    with run show ?thesis by blast
  qed
  have "mono (\<lambda>x::real. x)" by (simp add: mono_def)
  from rounded[OF this] have exact: "\<exists>d1 d2.
            fst (calculate_deaths a (with_param s ''vaccine_efficacy'' e1)) = Inr d1
          \<and> fst (calculate_deaths a (with_param s ''vaccine_efficacy'' e2)) = Inr d2
          \<and> d2 \<le> d1"
    by (simp add: calculate_deaths_rounded_exact)
  from rounded[OF assms(1,2)] exact show ?thesis by (rule conjI)
qed

text \<open>The default model at adoption 1/2, efficacy 0 against efficacy 1, once rounding
  every operation down to a whole number and once exactly.\<close>

theorem calculate_deaths_never_increases_witness:
  "(\<exists>d1 d2.
      fst (calculate_deaths_rounded (\<lambda>x. of_int \<lfloor>x\<rfloor>) (1 / 2)
             (with_param init ''vaccine_efficacy'' 0)) = Inr d1
    \<and> fst (calculate_deaths_rounded (\<lambda>x. of_int \<lfloor>x\<rfloor>) (1 / 2)
             (with_param init ''vaccine_efficacy'' 1)) = Inr d2
    \<and> d2 \<le> d1)
   \<and> (\<exists>d1 d2.
      fst (calculate_deaths (1 / 2) (with_param init ''vaccine_efficacy'' 0)) = Inr d1
    \<and> fst (calculate_deaths (1 / 2) (with_param init ''vaccine_efficacy'' 1)) = Inr d2
    \<and> d2 \<le> d1)"
proof -
  have m: "mono (\<lambda>x::real. real_of_int \<lfloor>x\<rfloor>)"
    by (simp add: mono_def floor_mono)
  have z: "real_of_int \<lfloor>0::real\<rfloor> = 0" by simp
  have p: "params init ''baseline_deaths'' = Some 1000" by (simp add: init_params)
  show ?thesis
    by (rule calculate_deaths_never_increases [OF m z p]) simp_all
qed

text \<open>
  The decrease is not strict for every parameter set: after
  \<open>set_parameters(baseline_deaths=0)\<close> the deaths at adoption 1/2 are 0 for efficacy 0 and
  for efficacy 1 alike.
\<close>

theorem calculate_deaths_zero_baseline_counterexample:
  "fst (calculate_deaths (1 / 2)
          (with_param (with_param init ''baseline_deaths'' 0) ''vaccine_efficacy'' 0)) = Inr 0
   \<and> fst (calculate_deaths (1 / 2)
          (with_param (with_param init ''baseline_deaths'' 0) ''vaccine_efficacy'' 1)) = Inr 0
   \<and> \<not> (0::real) < 0"
  by (simp add: calculate_deaths_def bind_getitem py_return_apply with_param_def init_def
        default_params_def)

text \<open>
  Two remarks on strictness. In exact arithmetic a positive baseline makes the decrease
  strict. Rounding can lose it again for a positive baseline: rounding to the nearest
  whole number, the default model at adoption 1/4000 has 1000 deaths for efficacy 0 and
  for efficacy 1.
\<close>

lemma calculate_deaths_exact_strictly_decreasing:
  assumes "params s ''baseline_deaths'' = Some b" and "0 < b"
    and "0 < a" and "a < 1" and "e1 < e2"
  shows "\<exists>d1 d2. fst (calculate_deaths a (with_param s ''vaccine_efficacy'' e1)) = Inr d1
               \<and> fst (calculate_deaths a (with_param s ''vaccine_efficacy'' e2)) = Inr d2
               \<and> d2 < d1"
proof -
  let ?d = "\<lambda>e. b * a * (1 - e) + b * (1 - a)"
  have run: "fst (calculate_deaths a (with_param s ''vaccine_efficacy'' e)) = Inr (?d e)" for e
    using assms(1) by (subst calculate_deaths_value[where b = b and e = e]) (simp_all add: with_param_def)
  have "0 < b * a" using assms by simp
  moreover have "1 - e2 < 1 - e1" using assms(5) by simp
  ultimately have "b * a * (1 - e2) < b * a * (1 - e1)" by (rule mult_strict_left_mono[rotated])
  then have "?d e2 < ?d e1" by simp
  with run show ?thesis by blast
qed

lemma calculate_deaths_rounding_loses_strictness:
  "fst (calculate_deaths_rounded (\<lambda>x. of_int \<lfloor>x + 1 / 2\<rfloor>) (1 / 4000)
          (with_param init ''vaccine_efficacy'' 0)) = Inr 1000
   \<and> fst (calculate_deaths_rounded (\<lambda>x. of_int \<lfloor>x + 1 / 2\<rfloor>) (1 / 4000)
          (with_param init ''vaccine_efficacy'' 1)) = Inr 1000"
  by (simp add: calculate_deaths_rounded_def bind_getitem py_return_apply with_param_def
        init_params)

subsection \<open>Negative lives saved\<close>

lemma selected_lives_saved:
  assumes "params s (adoption_key m) = Some a"
  shows "py_bind (getitem (adoption_key m)) calculate_lives_saved s = calculate_lives_saved a s"
  using assms by (simp add: bind_getitem)

lemma calculate_life_utility_unfold:
  "calculate_life_utility m =
     py_bind (py_bind (getitem (adoption_key m)) calculate_lives_saved) (\<lambda>lives_saved.
     py_bind (py_lift (float_pow lives_saved (9 / 10))) (\<lambda>effective_lives_saved.
     py_bind (getitem ''value_of_life'') (\<lambda>v.
     py_return (py_mul effective_lives_saved (PyFloat v)))))"
  by (simp add: calculate_life_utility_def adoption_key_def Let_def)

lemma calculate_life_utility_negative:
  assumes "params s (adoption_key m) = Some a"
    and "fst (calculate_lives_saved a s) = Inr l" and "l < 0"
    and "params s ''value_of_life'' = Some v"
  shows "calculate_life_utility m s =
           (Inr (PyComplex (rcis ((- l) powr (9 / 10)) (pi * (9 / 10)) * complex_of_real v)), s)"
proof -
  have ro: "read_only (py_bind (getitem (adoption_key m)) calculate_lives_saved)"
    by (intro read_only_intros read_only_calculate_lives_saved)
  have sel: "fst (py_bind (getitem (adoption_key m)) calculate_lives_saved s) = Inr l"
    using assms(1,2) by (simp add: selected_lives_saved)
  show ?thesis
    unfolding calculate_life_utility_unfold
    using sel assms(3,4)
    by (simp add: bind_read_only[OF ro] bind_lift float_pow_negative bind_getitem
          py_return_apply py_mul_def to_complex_def)
qed

lemma py_add_complex: "py_add (PyComplex z) (PyFloat x) = PyComplex (z + complex_of_real x)"
  by (simp add: py_add_def to_complex_def)

lemma calculate_total_utility_complex:
  assumes "fst (calculate_life_utility m s) = Inr (PyComplex z)"
    and "set parameter_names \<subseteq> dom (params s)"
  shows "calculate_total_utility m s = (Inl TypeError, s)"
proof -
  from assms(2) obtain f c where fc:
    "params s ''freedom_value'' = Some f" "params s ''enforcement_cost'' = Some c"
    by (auto simp: parameter_names_def)
  have fr: "fst (calculate_freedom_utility m s) = Inr (if m then - f else 0)"
    using fc by (simp add: calculate_freedom_utility_def bind_getitem py_return_apply)
  have en: "fst (calculate_enforcement_costs m s) = Inr (if m then - c else 0)"
    using fc by (simp add: calculate_enforcement_costs_def bind_getitem py_return_apply)
  show ?thesis
    unfolding calculate_total_utility_def
    using assms(1) fr en
    by (simp add: bind_read_only read_only_calculate_life_utility
          read_only_calculate_freedom_utility read_only_calculate_enforcement_costs
          py_add_complex py_raise_apply)
qed


lemma negative_efficacy_params:
  "params negative_efficacy = map_of
     [(''baseline_deaths'', 1000),
      (''vaccine_efficacy'', - (1 / 2)),
      (''voluntary_adoption'', 6 / 10),
      (''mandate_adoption'', 9 / 10),
      (''value_of_life'', 10000000),
      (''freedom_value'', 400000000),
      (''enforcement_cost'', 150000000),
      (''risk_aversion'', 1)]"
  by (simp add: negative_efficacy_def with_param_def init_def default_params_def fun_eq_iff)

lemma negative_efficacy_keys: "set parameter_names \<subseteq> dom (params negative_efficacy)"
  by (simp add: negative_efficacy_params parameter_names_def)




subsection \<open>When a decision returns and when it raises\<close>

lemma calculate_life_utility_returns:
  assumes "params s (adoption_key m) = Some a"
    and "fst (calculate_lives_saved a s) = Inr l" and "0 \<le> l"
    and "params s ''value_of_life'' = Some v"
  shows "\<exists>x. fst (calculate_life_utility m s) = Inr (PyFloat x)"
proof -
  have ro: "read_only (py_bind (getitem (adoption_key m)) calculate_lives_saved)"
    by (intro read_only_intros read_only_calculate_lives_saved)
  have sel: "fst (py_bind (getitem (adoption_key m)) calculate_lives_saved s) = Inr l"
    using assms(1,2) by (simp add: selected_lives_saved)
  from assms(3) obtain x where x: "float_pow l (9 / 10) = Inr (PyFloat x)"
    using float_pow_returns[of l "9 / 10"] by auto
  show ?thesis
    unfolding calculate_life_utility_unfold
    using sel assms(4) x
    by (simp add: bind_read_only[OF ro] bind_lift bind_getitem py_return_apply py_mul_def)
qed

lemma calculate_total_utility_returns:
  assumes "fst (calculate_life_utility m s) = Inr (PyFloat x)"
    and "set parameter_names \<subseteq> dom (params s)"
    and "params s ''risk_aversion'' = Some r" and "0 \<le> r"
  shows "\<exists>u. fst (calculate_total_utility m s) = Inr (PyFloat u)"
proof -
  from assms(2) obtain f c where fc:
    "params s ''freedom_value'' = Some f" "params s ''enforcement_cost'' = Some c"
    by (auto simp: parameter_names_def)
  have fr: "fst (calculate_freedom_utility m s) = Inr (if m then - f else 0)"
    using fc by (simp add: calculate_freedom_utility_def bind_getitem py_return_apply)
  have en: "fst (calculate_enforcement_costs m s) = Inr (if m then - c else 0)"
    using fc by (simp add: calculate_enforcement_costs_def bind_getitem py_return_apply)
  define t where "t = x + (if m then - f else 0) + (if m then - c else 0)"
  have run: "fst (calculate_total_utility m s) =
      (if 0 \<le> t then float_pow t r
       else case float_pow (- t) r of Inl e \<Rightarrow> Inl e | Inr p \<Rightarrow> Inr (py_neg p))"
    unfolding calculate_total_utility_def
    using assms(1,3) fr en
    by (simp add: bind_read_only read_only_calculate_life_utility
          read_only_calculate_freedom_utility read_only_calculate_enforcement_costs
          py_add_def bind_getitem py_lift_apply bind_lift py_return_apply t_def
          split: sum.splits)
  show ?thesis
  proof (cases "0 \<le> t")
    case True
    with float_pow_returns[OF True assms(4)] run show ?thesis by auto
  next
    case False
    then have "0 \<le> - t" by simp
    from float_pow_returns[OF this assms(4)] False run show ?thesis
      by (auto simp: py_neg_def)
  qed
qed

lemma make_decision_returns:
  assumes "set parameter_names \<subseteq> dom (params s)"
    and "params s ''mandate_adoption'' = Some am" and "params s ''voluntary_adoption'' = Some av"
    and "fst (calculate_lives_saved am s) = Inr lm" and "0 \<le> lm"
    and "fst (calculate_lives_saved av s) = Inr lv" and "0 \<le> lv"
    and "params s ''risk_aversion'' = Some r" and "0 \<le> r"
  shows "\<exists>res. fst (make_decision s) = Inr res"
proof -
  from assms(1) obtain v where v: "params s ''value_of_life'' = Some v"
    by (auto simp: parameter_names_def)
  from calculate_life_utility_returns[of s True am lm v] assms(2,4,5) v
  obtain xm where "fst (calculate_life_utility True s) = Inr (PyFloat xm)"
    by (auto simp: adoption_key_def)
  from calculate_total_utility_returns[OF this assms(1,8,9)]
  obtain um where um: "fst (calculate_total_utility True s) = Inr (PyFloat um)" by blast
  from calculate_life_utility_returns[of s False av lv v] assms(3,6,7) v
  obtain xv where "fst (calculate_life_utility False s) = Inr (PyFloat xv)"
    by (auto simp: adoption_key_def)
  from calculate_total_utility_returns[OF this assms(1,8,9)]
  obtain uv where uv: "fst (calculate_total_utility False s) = Inr (PyFloat uv)" by blast
  from um uv show ?thesis
    by (auto simp: make_decision_def bind_read_only read_only_calculate_total_utility
          bind_lift py_gt_def py_return_apply)
qed

lemma make_decision_type_error:
  assumes "set parameter_names \<subseteq> dom (params s)"
    and "params s ''mandate_adoption'' = Some am"
    and "fst (calculate_lives_saved am s) = Inr lm" and "lm < 0"
  shows "make_decision s = (Inl TypeError, s)"
proof -
  from assms(1) obtain v where v: "params s ''value_of_life'' = Some v"
    by (auto simp: parameter_names_def)
  have "fst (calculate_life_utility True s) =
      Inr (PyComplex (rcis ((- lm) powr (9 / 10)) (pi * (9 / 10)) * complex_of_real v))"
    using calculate_life_utility_negative[of s True am lm v] assms(2-4) v
    by (simp add: adoption_key_def)
  then have "calculate_total_utility True s = (Inl TypeError, s)"
    using assms(1) by (rule calculate_total_utility_complex)
  then show ?thesis
    by (simp add: make_decision_def py_bind_def)
qed

subsection \<open>Unknown parameter names\<close>

text \<open>
  C5. A sweep over a name that is not a key of \<open>self.params\<close> fails at once, before any
  parameter is touched: \<open>sensitivity_analysis\<close> raises \<open>KeyError\<close> for its name, and
  \<open>two_way_analysis\<close> raises \<open>KeyError\<close> for the first of its two names that is unknown.
  (Python's \<open>KeyError\<close>, carrying the offending name, is the invalid-parameter failure.)
\<close>

theorem sweeps_reject_unknown_parameter:
  "(params s p = None \<longrightarrow> sensitivity_analysis p vs s = (Inl (KeyError p), s))
   \<and> (params s p1 = None \<longrightarrow> two_way_analysis p1 vs1 p2 vs2 s = (Inl (KeyError p1), s))
   \<and> (params s p1 \<noteq> None \<longrightarrow> params s p2 = None \<longrightarrow>
        two_way_analysis p1 vs1 p2 vs2 s = (Inl (KeyError p2), s))"
  by (auto simp: sensitivity_analysis_def two_way_analysis_def bind_getitem)

theorem sweeps_reject_unknown_parameter_witness:
  "sensitivity_analysis ''efficacy'' [1 / 2] init = (Inl (KeyError ''efficacy''), init)
   \<and> two_way_analysis ''efficacy'' [1 / 2] ''risk_aversion'' [1] init
       = (Inl (KeyError ''efficacy''), init)
   \<and> two_way_analysis ''risk_aversion'' [1] ''efficacy'' [1 / 2] init
       = (Inl (KeyError ''efficacy''), init)"
proof -
  have unknown: "params init ''efficacy'' = None"
    and known: "params init ''risk_aversion'' \<noteq> None"
    by (simp_all add: init_def default_params_def)
  show ?thesis
    using sweeps_reject_unknown_parameter
            [of init "''efficacy''" "[1 / 2]" "''efficacy''" "[1 / 2]" "''risk_aversion''" "[1]"]
          sweeps_reject_unknown_parameter
            [of init "''efficacy''" "[1 / 2]" "''risk_aversion''" "[1]" "''efficacy''" "[1 / 2]"]
          unknown known
    by simp
qed

subsection \<open>The one-parameter sweep\<close>

lemma sensitivity_loop_done: "sensitivity_loop p [] acc s = (Inr acc, s)"
  by (simp add: py_return_apply)

lemma sensitivity_loop_step:
  "sensitivity_loop p (v # vs) acc s =
     (case fst (make_decision (with_param s p v)) of
        Inl e \<Rightarrow> (Inl e, with_param s p v)
      | Inr (d, um, uv) \<Rightarrow>
          sensitivity_loop p vs
            (acc @ [\<lparr>val = v, decision = decision_label d, utility_mandate = um,
                      utility_voluntary = uv, utility_difference = py_sub um uv\<rparr>])
            (with_param s p v))"
  by (simp add: py_bind_def setitem_apply bind_read_only[OF read_only_make_decision, unfolded py_bind_def]
        split: sum.splits prod.splits)

lemma sensitivity_loop_returns:
  "sensitivity_loop p vs acc s = (Inr rows, s') \<Longrightarrow>
     s' = (if vs = [] then s else with_param s p (last vs))
     \<and> (\<exists>new. rows = acc @ new \<and> list_all2 (\<lambda>r v. sweep_row_at (with_param s p v) v r) new vs)"
proof (induction vs arbitrary: acc s)
  case Nil
  then show ?case by (simp add: py_return_apply)
next
  case (Cons v vs)
  let ?s1 = "with_param s p v"
  from Cons.prems obtain d um uv where ok: "fst (make_decision ?s1) = Inr (d, um, uv)"
    and rest: "sensitivity_loop p vs
        (acc @ [\<lparr>val = v, decision = decision_label d, utility_mandate = um,
                  utility_voluntary = uv, utility_difference = py_sub um uv\<rparr>]) ?s1 = (Inr rows, s')"
    by (auto simp: sensitivity_loop_step simp del: sensitivity_loop.simps
          split: sum.splits prod.splits)
  let ?r = "\<lparr>val = v, decision = decision_label d, utility_mandate = um,
              utility_voluntary = uv, utility_difference = py_sub um uv\<rparr>"
  from Cons.IH[OF rest] obtain new where
    st: "s' = (if vs = [] then ?s1 else with_param ?s1 p (last vs))"
    and rows: "rows = (acc @ [?r]) @ new"
    and all: "list_all2 (\<lambda>r u. sweep_row_at (with_param ?s1 p u) u r) new vs"
    by blast
  have "sweep_row_at ?s1 v ?r" using ok by (auto simp: sweep_row_at_def)
  with all have "list_all2 (\<lambda>r u. sweep_row_at (with_param s p u) u r) (?r # new) (v # vs)"
    by (simp add: with_param_twice)
  moreover have "rows = acc @ (?r # new)" using rows by simp
  moreover have "s' = (if v # vs = [] then s else with_param s p (last (v # vs)))"
    using st by (simp add: with_param_twice)
  ultimately show ?case by blast
qed

lemma sensitivity_loop_raises:
  "sensitivity_loop p vs acc s = (Inl e, s') \<Longrightarrow>
     \<exists>v\<in>set vs. s' = with_param s p v \<and> fst (make_decision s') = Inl e"
proof (induction vs arbitrary: acc s)
  case Nil
  then show ?case by (simp add: py_return_apply)
next
  case (Cons v vs)
  let ?s1 = "with_param s p v"
  show ?case
  proof (cases "fst (make_decision ?s1)")
    case (Inl e')
    with Cons.prems show ?thesis
      by (simp add: sensitivity_loop_step del: sensitivity_loop.simps)
  next
    case (Inr res)
    with Cons.prems obtain acc' where "sensitivity_loop p vs acc' ?s1 = (Inl e, s')"
      by (auto simp: sensitivity_loop_step simp del: sensitivity_loop.simps split: prod.splits)
    from Cons.IH[OF this] show ?thesis by (auto simp: with_param_twice)
  qed
qed

lemma sensitivity_analysis_unfold:
  assumes "params s p = Some orig"
  shows "sensitivity_analysis p vs s =
     (case sensitivity_loop p vs [] s of
        (Inl e, s') \<Rightarrow> (Inl e, s')
      | (Inr rows, s') \<Rightarrow> (Inr rows, with_param s' p orig))"
proof -
  have "sensitivity_analysis p vs s =
      py_bind (sensitivity_loop p vs []) (\<lambda>results.
      py_bind (setitem p orig) (\<lambda>_. py_return results)) s"
    using assms by (simp add: sensitivity_analysis_def bind_getitem)
  then show ?thesis
    by (simp add: py_bind_def setitem_apply py_return_apply split: prod.splits sum.splits)
qed

text \<open>
  C2. For a parameter name that is a key of \<open>self.params\<close> and any list of values (the empty
  list included): the sweep returns whenever \<open>make_decision\<close> returns at every swept value;
  and whenever the sweep returns, \<open>params[parameter]\<close> is its value from before the call,
  indeed the whole state is unchanged. The restoration happens once, after the loop: the
  loop itself ends with the parameter at the last swept value, and the row for each value
  \<open>v\<close> is computed with the parameter set to \<open>v\<close>.
\<close>

theorem sensitivity_analysis_restores:
  assumes "params s p = Some orig"
  shows "((\<forall>v\<in>set vs. \<exists>r. fst (make_decision (with_param s p v)) = Inr r) \<longrightarrow>
            (\<exists>rows. fst (sensitivity_analysis p vs s) = Inr rows))
         \<and> (\<forall>rows. fst (sensitivity_analysis p vs s) = Inr rows \<longrightarrow>
               params (snd (sensitivity_analysis p vs s)) p = Some orig
               \<and> snd (sensitivity_analysis p vs s) = s
               \<and> snd (sensitivity_loop p vs [] s) = (if vs = [] then s else with_param s p (last vs))
               \<and> list_all2 (\<lambda>r v. sweep_row_at (with_param s p v) v r) rows vs)"
proof (intro conjI impI allI)
  assume ok: "\<forall>v\<in>set vs. \<exists>r. fst (make_decision (with_param s p v)) = Inr r"
  show "\<exists>rows. fst (sensitivity_analysis p vs s) = Inr rows"
  proof (cases "sensitivity_loop p vs [] s")
    case (Pair res s')
    show ?thesis
    proof (cases res)
      case (Inl e)
      with Pair sensitivity_loop_raises[of p vs "[]" s e s'] ok show ?thesis by fastforce
    next
      case (Inr rows)
      with Pair show ?thesis by (simp add: sensitivity_analysis_unfold[OF assms])
    qed
  qed
next
  fix rows
  assume ret: "fst (sensitivity_analysis p vs s) = Inr rows"
  then obtain s' where loop: "sensitivity_loop p vs [] s = (Inr rows, s')"
    by (auto simp: sensitivity_analysis_unfold[OF assms] split: prod.splits sum.splits)
  from sensitivity_loop_returns[OF loop]
  have s': "s' = (if vs = [] then s else with_param s p (last vs))"
    and rows: "list_all2 (\<lambda>r v. sweep_row_at (with_param s p v) v r) rows vs"
    by auto
  have "with_param s' p orig = s"
    using s' assms by (simp add: with_param_twice with_param_restore)
  then show final: "snd (sensitivity_analysis p vs s) = s"
    using loop by (simp add: sensitivity_analysis_unfold[OF assms])
  show "params (snd (sensitivity_analysis p vs s)) p = Some orig"
    unfolding final by (rule assms)
  show "snd (sensitivity_loop p vs [] s) = (if vs = [] then s else with_param s p (last vs))"
    using loop s' by simp
  show "list_all2 (\<lambda>r v. sweep_row_at (with_param s p v) v r) rows vs" by (rule rows)
qed

lemma tie_value_10:
  "fst (make_decision (with_param tie_state ''value_of_life'' 10)) = Inr (False, PyFloat 0, PyFloat 0)"
  by (simp add: eval_defs)

lemma tie_value_20:
  "fst (make_decision (with_param tie_state ''value_of_life'' 20)) = Inr (True, PyFloat 10, PyFloat 0)"
  by (simp add: eval_defs)

theorem sensitivity_analysis_restores_witness:
  "fst (sensitivity_analysis ''value_of_life'' [10, 20] tie_state) =
     Inr [\<lparr>val = 10, decision = ''Voluntary'', utility_mandate = PyFloat 0,
            utility_voluntary = PyFloat 0, utility_difference = PyFloat 0\<rparr>,
          \<lparr>val = 20, decision = ''Mandate'', utility_mandate = PyFloat 10,
            utility_voluntary = PyFloat 0, utility_difference = PyFloat 10\<rparr>]
   \<and> snd (sensitivity_analysis ''value_of_life'' [10, 20] tie_state) = tie_state
   \<and> snd (sensitivity_loop ''value_of_life'' [10, 20] [] tie_state) =
       with_param tie_state ''value_of_life'' 20"
proof -
  have p: "params tie_state ''value_of_life'' = Some 10" by (simp add: tie_state_def)
  have run: "fst (sensitivity_analysis ''value_of_life'' [10, 20] tie_state) =
     Inr [\<lparr>val = 10, decision = ''Voluntary'', utility_mandate = PyFloat 0,
            utility_voluntary = PyFloat 0, utility_difference = PyFloat 0\<rparr>,
          \<lparr>val = 20, decision = ''Mandate'', utility_mandate = PyFloat 10,
            utility_voluntary = PyFloat 0, utility_difference = PyFloat 10\<rparr>]"
    by (simp add: sensitivity_analysis_unfold[OF p] sensitivity_loop_step with_param_twice
          tie_value_10 tie_value_20 decision_label_def py_sub_def py_return_apply
          sensitivity_loop_done del: sensitivity_loop.simps)
  with sensitivity_analysis_restores [OF p, of "[10, 20]"] show ?thesis by simp
qed

subsection \<open>The two-parameter sweep\<close>

lemma two_way_inner_done: "two_way_inner p1 v1 p2 [] acc s = (Inr acc, s)"
  by (simp add: py_return_apply)

lemma two_way_outer_done: "two_way_outer p1 [] p2 vs2 acc s = (Inr acc, s)"
  by (simp add: py_return_apply)

lemma two_way_inner_step:
  "two_way_inner p1 v1 p2 (v2 # vs2) acc s =
     (case fst (make_decision (with_param (with_param s p1 v1) p2 v2)) of
        Inl e \<Rightarrow> (Inl e, with_param (with_param s p1 v1) p2 v2)
      | Inr (d, um, uv) \<Rightarrow>
          two_way_inner p1 v1 p2 vs2 (acc @ [two_way_row p1 v1 p2 v2 d])
            (with_param (with_param s p1 v1) p2 v2))"
  by (simp add: py_bind_def setitem_apply
        bind_read_only[OF read_only_make_decision, unfolded py_bind_def]
        split: sum.splits prod.splits)

lemma two_way_inner_returns:
  "two_way_inner p1 v1 p2 vs2 acc s = (Inr rows, s') \<Longrightarrow>
     s' = (if vs2 = [] then s else with_param (with_param s p1 v1) p2 (last vs2))
     \<and> (\<exists>new. rows = acc @ new
          \<and> list_all2 (\<lambda>r v2. two_way_row_at (with_param (with_param s p1 v1) p2 v2) p1 v1 p2 v2 r)
               new vs2)"
proof (induction vs2 arbitrary: acc s)
  case Nil
  then show ?case by (simp add: py_return_apply)
next
  case (Cons v2 vs2)
  let ?s1 = "with_param (with_param s p1 v1) p2 v2"
  from Cons.prems obtain d um uv where ok: "fst (make_decision ?s1) = Inr (d, um, uv)"
    and rest: "two_way_inner p1 v1 p2 vs2 (acc @ [two_way_row p1 v1 p2 v2 d]) ?s1 = (Inr rows, s')"
    by (auto simp: two_way_inner_step simp del: two_way_inner.simps
          split: sum.splits prod.splits)
  let ?r = "two_way_row p1 v1 p2 v2 d"
  from Cons.IH[OF rest] obtain new where
    st: "s' = (if vs2 = [] then ?s1 else with_param (with_param ?s1 p1 v1) p2 (last vs2))"
    and rows: "rows = (acc @ [?r]) @ new"
    and all: "list_all2 (\<lambda>r u. two_way_row_at (with_param (with_param ?s1 p1 v1) p2 u) p1 v1 p2 u r)
                new vs2"
    by blast
  have "two_way_row_at ?s1 p1 v1 p2 v2 ?r" using ok by (auto simp: two_way_row_at_def)
  with all have "list_all2 (\<lambda>r u. two_way_row_at (with_param (with_param s p1 v1) p2 u) p1 v1 p2 u r)
      (?r # new) (v2 # vs2)"
    by (simp add: with_param_grid)
  moreover have "rows = acc @ (?r # new)" using rows by simp
  moreover have "s' = (if v2 # vs2 = [] then s
                       else with_param (with_param s p1 v1) p2 (last (v2 # vs2)))"
    using st by (simp add: with_param_grid)
  ultimately show ?case by blast
qed

lemma two_way_inner_raises:
  "two_way_inner p1 v1 p2 vs2 acc s = (Inl e, s') \<Longrightarrow>
     \<exists>v2\<in>set vs2. s' = with_param (with_param s p1 v1) p2 v2 \<and> fst (make_decision s') = Inl e"
proof (induction vs2 arbitrary: acc s)
  case Nil
  then show ?case by (simp add: py_return_apply)
next
  case (Cons v2 vs2)
  let ?s1 = "with_param (with_param s p1 v1) p2 v2"
  show ?case
  proof (cases "fst (make_decision ?s1)")
    case (Inl e')
    with Cons.prems show ?thesis
      by (simp add: two_way_inner_step del: two_way_inner.simps)
  next
    case (Inr res)
    with Cons.prems obtain acc' where "two_way_inner p1 v1 p2 vs2 acc' ?s1 = (Inl e, s')"
      by (auto simp: two_way_inner_step simp del: two_way_inner.simps split: prod.splits)
    from Cons.IH[OF this] show ?thesis by (auto simp: with_param_grid)
  qed
qed

lemma two_way_outer_step:
  "two_way_outer p1 (v1 # vs1) p2 vs2 acc s =
     (case two_way_inner p1 v1 p2 vs2 acc s of
        (Inl e, s1) \<Rightarrow> (Inl e, s1)
      | (Inr rows1, s1) \<Rightarrow> two_way_outer p1 vs1 p2 vs2 rows1 s1)"
  by (simp add: py_bind_def)

lemma two_way_outer_returns:
  "two_way_outer p1 vs1 p2 vs2 acc s = (Inr rows, s') \<Longrightarrow>
     s' = (if vs1 = [] \<or> vs2 = [] then s
           else with_param (with_param s p1 (last vs1)) p2 (last vs2))
     \<and> (\<exists>new. rows = acc @ new
          \<and> list_all2 (\<lambda>r (v1, v2).
                 two_way_row_at (with_param (with_param s p1 v1) p2 v2) p1 v1 p2 v2 r)
               new (List.product vs1 vs2))"
proof (induction vs1 arbitrary: acc s)
  case Nil
  then show ?case by (simp add: py_return_apply)
next
  case (Cons v1 vs1)
  from Cons.prems obtain rows1 s1 where
    inner: "two_way_inner p1 v1 p2 vs2 acc s = (Inr rows1, s1)"
    and outer: "two_way_outer p1 vs1 p2 vs2 rows1 s1 = (Inr rows, s')"
    by (auto simp: two_way_outer_step simp del: two_way_outer.simps
          split: prod.splits sum.splits)
  from two_way_inner_returns[OF inner] obtain new1 where
    s1: "s1 = (if vs2 = [] then s else with_param (with_param s p1 v1) p2 (last vs2))"
    and rows1: "rows1 = acc @ new1"
    and all1: "list_all2 (\<lambda>r v2.
        two_way_row_at (with_param (with_param s p1 v1) p2 v2) p1 v1 p2 v2 r) new1 vs2"
    by blast
  have same: "with_param (with_param s1 p1 a) p2 b = with_param (with_param s p1 a) p2 b" for a b
    using s1 by (simp add: with_param_grid)
  from Cons.IH[OF outer] obtain new2 where
    s': "s' = (if vs1 = [] \<or> vs2 = [] then s1
               else with_param (with_param s1 p1 (last vs1)) p2 (last vs2))"
    and rows: "rows = rows1 @ new2"
    and all2: "list_all2 (\<lambda>r (a, b).
        two_way_row_at (with_param (with_param s1 p1 a) p2 b) p1 a p2 b r)
        new2 (List.product vs1 vs2)"
    by blast
  from all2 have all2': "list_all2 (\<lambda>r (a, b).
        two_way_row_at (with_param (with_param s p1 a) p2 b) p1 a p2 b r)
        new2 (List.product vs1 vs2)"
    by (simp only: same)
  from all1 have "list_all2 (\<lambda>r (a, b).
        two_way_row_at (with_param (with_param s p1 a) p2 b) p1 a p2 b r)
        new1 (map (Pair v1) vs2)"
    by (simp add: list_all2_map2)
  with all2' have "list_all2 (\<lambda>r (a, b).
        two_way_row_at (with_param (with_param s p1 a) p2 b) p1 a p2 b r)
        (new1 @ new2) (List.product (v1 # vs1) vs2)"
    by (simp add: list_all2_appendI)
  moreover have "rows = acc @ (new1 @ new2)" using rows rows1 by simp
  moreover have "s' = (if v1 # vs1 = [] \<or> vs2 = [] then s
                       else with_param (with_param s p1 (last (v1 # vs1))) p2 (last vs2))"
    using s' s1 by (simp add: with_param_grid)
  ultimately show ?case by blast
qed

lemma two_way_outer_raises:
  "two_way_outer p1 vs1 p2 vs2 acc s = (Inl e, s') \<Longrightarrow>
     \<exists>v1\<in>set vs1. \<exists>v2\<in>set vs2.
        s' = with_param (with_param s p1 v1) p2 v2 \<and> fst (make_decision s') = Inl e"
proof (induction vs1 arbitrary: acc s)
  case Nil
  then show ?case by (simp add: py_return_apply)
next
  case (Cons v1 vs1)
  show ?case
  proof (cases "two_way_inner p1 v1 p2 vs2 acc s")
    case (Pair res s1)
    show ?thesis
    proof (cases res)
      case (Inl e')
      with Pair Cons.prems have "two_way_inner p1 v1 p2 vs2 acc s = (Inl e, s')"
        by (simp add: two_way_outer_step del: two_way_outer.simps)
      from two_way_inner_raises[OF this] show ?thesis by auto
    next
      case (Inr rows1)
      with Pair have inner: "two_way_inner p1 v1 p2 vs2 acc s = (Inr rows1, s1)" by simp
      with Cons.prems have outer: "two_way_outer p1 vs1 p2 vs2 rows1 s1 = (Inl e, s')"
        by (simp add: two_way_outer_step del: two_way_outer.simps)
      from two_way_inner_returns[OF inner]
      have s1: "s1 = (if vs2 = [] then s else with_param (with_param s p1 v1) p2 (last vs2))"
        by blast
      have same: "with_param (with_param s1 p1 a) p2 b = with_param (with_param s p1 a) p2 b"
        for a b
        using s1 by (simp add: with_param_grid)
      from Cons.IH[OF outer] show ?thesis by (auto simp: same)
    qed
  qed
qed

lemma two_way_analysis_unfold:
  assumes "params s p1 = Some o1" and "params s p2 = Some o2"
  shows "two_way_analysis p1 vs1 p2 vs2 s =
     (case two_way_outer p1 vs1 p2 vs2 [] s of
        (Inl e, s') \<Rightarrow> (Inl e, s')
      | (Inr rows, s') \<Rightarrow> (Inr rows, with_param (with_param s' p1 o1) p2 o2))"
proof -
  have "two_way_analysis p1 vs1 p2 vs2 s =
      py_bind (two_way_outer p1 vs1 p2 vs2 []) (\<lambda>results.
      py_bind (setitem p1 o1) (\<lambda>_.
      py_bind (setitem p2 o2) (\<lambda>_. py_return results))) s"
    using assms by (simp add: two_way_analysis_def bind_getitem)
  then show ?thesis
    by (simp add: py_bind_def setitem_apply py_return_apply split: prod.splits sum.splits)
qed

text \<open>
  C6. For two names that are keys of \<open>self.params\<close> and any two lists of values: the sweep
  returns whenever \<open>make_decision\<close> returns at every pair; and whenever it returns, it has
  \<open>len(values1) * len(values2)\<close> rows, one per pair of the cartesian product in the order
  outer \<open>values1\<close>, inner \<open>values2\<close>, each row recording the decision taken with both
  parameters set to that pair, and the state (so both swept parameters) is as before
  the call.
\<close>

theorem two_way_analysis_grid:
  assumes "params s p1 \<noteq> None" and "params s p2 \<noteq> None"
  shows "((\<forall>v1\<in>set vs1. \<forall>v2\<in>set vs2.
             \<exists>r. fst (make_decision (with_param (with_param s p1 v1) p2 v2)) = Inr r) \<longrightarrow>
            (\<exists>rows. fst (two_way_analysis p1 vs1 p2 vs2 s) = Inr rows))
         \<and> (\<forall>rows. fst (two_way_analysis p1 vs1 p2 vs2 s) = Inr rows \<longrightarrow>
               length rows = length vs1 * length vs2
               \<and> list_all2 (\<lambda>r (v1, v2).
                     two_way_row_at (with_param (with_param s p1 v1) p2 v2) p1 v1 p2 v2 r)
                   rows (List.product vs1 vs2)
               \<and> params (snd (two_way_analysis p1 vs1 p2 vs2 s)) p1 = params s p1
               \<and> params (snd (two_way_analysis p1 vs1 p2 vs2 s)) p2 = params s p2
               \<and> snd (two_way_analysis p1 vs1 p2 vs2 s) = s)"
proof -
  from assms obtain o1 o2 where o: "params s p1 = Some o1" "params s p2 = Some o2" by auto
  note unfold = two_way_analysis_unfold[OF o]
  show ?thesis
  proof (intro conjI impI allI)
    assume ok: "\<forall>v1\<in>set vs1. \<forall>v2\<in>set vs2.
        \<exists>r. fst (make_decision (with_param (with_param s p1 v1) p2 v2)) = Inr r"
    show "\<exists>rows. fst (two_way_analysis p1 vs1 p2 vs2 s) = Inr rows"
    proof (cases "two_way_outer p1 vs1 p2 vs2 [] s")
      case (Pair res s')
      show ?thesis
      proof (cases res)
        case (Inl e)
        with Pair two_way_outer_raises[of p1 vs1 p2 vs2 "[]" s e s'] ok show ?thesis
          by fastforce
      next
        case (Inr rows)
        with Pair show ?thesis by (simp add: unfold)
      qed
    qed
  next
    fix rows
    assume ret: "fst (two_way_analysis p1 vs1 p2 vs2 s) = Inr rows"
    then obtain s' where loop: "two_way_outer p1 vs1 p2 vs2 [] s = (Inr rows, s')"
      by (auto simp: unfold split: prod.splits sum.splits)
    from two_way_outer_returns[OF loop]
    have s': "s' = (if vs1 = [] \<or> vs2 = [] then s
                    else with_param (with_param s p1 (last vs1)) p2 (last vs2))"
      and rows: "list_all2 (\<lambda>r (v1, v2).
          two_way_row_at (with_param (with_param s p1 v1) p2 v2) p1 v1 p2 v2 r)
          rows (List.product vs1 vs2)"
      by auto
    from rows have "length rows = length (List.product vs1 vs2)" by (rule list_all2_lengthD)
    then show "length rows = length vs1 * length vs2" by simp
    show "list_all2 (\<lambda>r (v1, v2).
          two_way_row_at (with_param (with_param s p1 v1) p2 v2) p1 v1 p2 v2 r)
          rows (List.product vs1 vs2)"
      by (rule rows)
    have "with_param (with_param s' p1 o1) p2 o2 = with_param (with_param s p1 o1) p2 o2"
      using s' by (simp add: with_param_grid)
    then have "with_param (with_param s' p1 o1) p2 o2 = s"
      using o by (simp add: with_param_restore_grid)
    then show final: "snd (two_way_analysis p1 vs1 p2 vs2 s) = s"
      using loop by (simp add: unfold)
    show "params (snd (two_way_analysis p1 vs1 p2 vs2 s)) p1 = params s p1"
      and "params (snd (two_way_analysis p1 vs1 p2 vs2 s)) p2 = params s p2"
      unfolding final by simp_all
  qed
qed

lemma tie_grid:
  "fst (make_decision (with_param (with_param tie_state ''value_of_life'' 10) ''freedom_value'' 6))
     = Inr (False, PyFloat 0, PyFloat 0)"
  "fst (make_decision (with_param (with_param tie_state ''value_of_life'' 10) ''freedom_value'' 16))
     = Inr (False, PyFloat (- 10), PyFloat 0)"
  "fst (make_decision (with_param (with_param tie_state ''value_of_life'' 20) ''freedom_value'' 6))
     = Inr (True, PyFloat 10, PyFloat 0)"
  "fst (make_decision (with_param (with_param tie_state ''value_of_life'' 20) ''freedom_value'' 16))
     = Inr (False, PyFloat 0, PyFloat 0)"
  by (simp_all add: eval_defs)

theorem two_way_analysis_grid_witness:
  "\<exists>rows. fst (two_way_analysis ''value_of_life'' [10, 20] ''freedom_value'' [6, 16] tie_state)
            = Inr rows
     \<and> length rows = 4
     \<and> map (\<lambda>r. (r ''value_of_life'', r ''freedom_value'', r ''decision'')) rows =
         [(Some (Num 10), Some (Num 6), Some (Str ''Voluntary'')),
          (Some (Num 10), Some (Num 16), Some (Str ''Voluntary'')),
          (Some (Num 20), Some (Num 6), Some (Str ''Mandate'')),
          (Some (Num 20), Some (Num 16), Some (Str ''Voluntary''))]
     \<and> snd (two_way_analysis ''value_of_life'' [10, 20] ''freedom_value'' [6, 16] tie_state)
         = tie_state"
proof -
  have p: "params tie_state ''value_of_life'' \<noteq> None" "params tie_state ''freedom_value'' \<noteq> None"
    by (simp_all add: tie_state_def)
  have ok: "\<forall>v1\<in>set [10, 20]. \<forall>v2\<in>set [6, 16]. \<exists>r.
      fst (make_decision (with_param (with_param tie_state ''value_of_life'' v1)
                            ''freedom_value'' v2)) = Inr r"
    by (auto simp: tie_grid)
  from two_way_analysis_grid [OF p, of "[10, 20]" "[6, 16]"] ok
  obtain rows where
    rows: "fst (two_way_analysis ''value_of_life'' [10, 20] ''freedom_value'' [6, 16] tie_state)
             = Inr rows"
    and len: "length rows = length [10, 20 :: real] * length [6, 16 :: real]"
    and grid: "list_all2 (\<lambda>r (v1, v2).
        two_way_row_at (with_param (with_param tie_state ''value_of_life'' v1) ''freedom_value'' v2)
          ''value_of_life'' v1 ''freedom_value'' v2 r) rows (List.product [10, 20] [6, 16])"
    and st: "snd (two_way_analysis ''value_of_life'' [10, 20] ''freedom_value'' [6, 16] tie_state)
             = tie_state"
    by blast
  from grid have "map (\<lambda>r. (r ''value_of_life'', r ''freedom_value'', r ''decision'')) rows =
         [(Some (Num 10), Some (Num 6), Some (Str ''Voluntary'')),
          (Some (Num 10), Some (Num 16), Some (Str ''Voluntary'')),
          (Some (Num 20), Some (Num 6), Some (Str ''Mandate'')),
          (Some (Num 20), Some (Num 16), Some (Str ''Voluntary''))]"
    by (auto simp: list_all2_Cons2 two_way_row_at_def tie_grid two_way_row_def decision_label_def)
  with rows len st show ?thesis by simp
qed

subsection \<open>A sweep that fails partway\<close>

lemma sensitivity_loop_skip:
  "fst (make_decision (with_param s p v)) = Inr res \<Longrightarrow>
     \<exists>acc'. sensitivity_loop p (v # vs) acc s = sensitivity_loop p vs acc' (with_param s p v)"
  by (cases res) (auto simp: sensitivity_loop_step simp del: sensitivity_loop.simps)

lemma sensitivity_loop_stop:
  "fst (make_decision (with_param s p v)) = Inl e \<Longrightarrow>
     sensitivity_loop p (v # vs) acc s = (Inl e, with_param s p v)"
  by (simp add: sensitivity_loop_step del: sensitivity_loop.simps)

lemma two_way_inner_skip:
  "fst (make_decision (with_param (with_param s p1 v1) p2 v2)) = Inr res \<Longrightarrow>
     \<exists>acc'. two_way_inner p1 v1 p2 (v2 # vs2) acc s =
            two_way_inner p1 v1 p2 vs2 acc' (with_param (with_param s p1 v1) p2 v2)"
  by (cases res) (auto simp: two_way_inner_step simp del: two_way_inner.simps)

lemma two_way_inner_stop:
  "fst (make_decision (with_param (with_param s p1 v1) p2 v2)) = Inl e \<Longrightarrow>
     two_way_inner p1 v1 p2 (v2 # vs2) acc s = (Inl e, with_param (with_param s p1 v1) p2 v2)"
  by (simp add: two_way_inner_step del: two_way_inner.simps)

lemma returns_at_half_efficacy:
  assumes keys: "set parameter_names \<subseteq> dom (params s)"
    and b: "params s ''baseline_deaths'' = Some 1000"
    and e: "params s ''vaccine_efficacy'' = Some (1 / 2)"
    and am: "params s ''mandate_adoption'' = Some (9 / 10)"
    and av: "params s ''voluntary_adoption'' = Some (6 / 10)"
    and r: "params s ''risk_aversion'' = Some 1"
  shows "\<exists>res. fst (make_decision s) = Inr res"
proof -
  have lm: "fst (calculate_lives_saved (9 / 10) s) = Inr 450"
    by (subst calculate_lives_saved_value[OF b e]) simp
  have lv: "fst (calculate_lives_saved (6 / 10) s) = Inr 300"
    by (subst calculate_lives_saved_value[OF b e]) simp
  show ?thesis
    by (rule make_decision_returns[OF keys am av lm _ lv _ r]) simp_all
qed

lemma half_efficacy_returns:
  "\<exists>res. fst (make_decision (with_param init ''vaccine_efficacy'' (1 / 2))) = Inr res"
  by (rule returns_at_half_efficacy[OF keys_with_param[OF init_keys]])
     (simp_all add: params_with_param init_params)

lemma half_efficacy_freedom_returns:
  "\<exists>res. fst (make_decision
       (with_param (with_param init ''vaccine_efficacy'' (1 / 2)) ''freedom_value'' f)) = Inr res"
  by (rule returns_at_half_efficacy[OF keys_with_param[OF keys_with_param[OF init_keys]]])
     (simp_all add: params_with_param init_params)

lemma raises_at_negative_efficacy:
  assumes keys: "set parameter_names \<subseteq> dom (params s)"
    and b: "params s ''baseline_deaths'' = Some 1000"
    and e: "params s ''vaccine_efficacy'' = Some (- (1 / 2))"
    and am: "params s ''mandate_adoption'' = Some (9 / 10)"
  shows "make_decision s = (Inl TypeError, s)"
proof -
  have lm: "fst (calculate_lives_saved (9 / 10) s) = Inr (- 450)"
    by (subst calculate_lives_saved_value[OF b e]) simp
  show ?thesis
    by (rule make_decision_type_error[OF keys am lm]) simp
qed

lemma negative_efficacy_raises:
  "make_decision negative_efficacy = (Inl TypeError, negative_efficacy)"
  by (rule raises_at_negative_efficacy[OF negative_efficacy_keys])
     (simp_all add: negative_efficacy_params)

lemma negative_efficacy_freedom_raises:
  "make_decision (with_param negative_efficacy ''freedom_value'' f)
     = (Inl TypeError, with_param negative_efficacy ''freedom_value'' f)"
  by (rule raises_at_negative_efficacy[OF keys_with_param[OF negative_efficacy_keys]])
     (simp_all add: params_with_param negative_efficacy_params)

lemma failing_sensitivity_sweep:
  "sensitivity_analysis ''vaccine_efficacy'' [1 / 2, - (1 / 2), 3 / 4] init
     = (Inl TypeError, negative_efficacy)"
proof -
  let ?p = "''vaccine_efficacy''"
  let ?s1 = "with_param init ?p (1 / 2)"
  have orig: "params init ?p = Some (9 / 10)" by (simp add: init_params)
  from half_efficacy_returns obtain res where "fst (make_decision ?s1) = Inr res"
    by blast
  from sensitivity_loop_skip[OF this] obtain acc' where
    first: "sensitivity_loop ?p [1 / 2, - (1 / 2), 3 / 4] [] init
            = sensitivity_loop ?p [- (1 / 2), 3 / 4] acc' ?s1"
    by blast
  have s2: "with_param ?s1 ?p (- (1 / 2)) = negative_efficacy"
    by (simp add: with_param_twice negative_efficacy_def)
  have "fst (make_decision (with_param ?s1 ?p (- (1 / 2)))) = Inl TypeError"
    unfolding s2 by (simp add: negative_efficacy_raises)
  from sensitivity_loop_stop[OF this]
  have "sensitivity_loop ?p [- (1 / 2), 3 / 4] acc' ?s1 = (Inl TypeError, negative_efficacy)"
    by (simp only: s2)
  with first show ?thesis
    by (simp add: sensitivity_analysis_unfold[OF orig] del: sensitivity_loop.simps)
qed

lemma failing_two_way_sweep:
  "two_way_analysis ''vaccine_efficacy'' [1 / 2, - (1 / 2)] ''freedom_value'' [0, 1] init
     = (Inl TypeError, with_param negative_efficacy ''freedom_value'' 0)"
proof -
  let ?p1 = "''vaccine_efficacy''" and ?p2 = "''freedom_value''"
  let ?s1 = "with_param (with_param init ?p1 (1 / 2)) ?p2 0"
  let ?s2 = "with_param (with_param ?s1 ?p1 (1 / 2)) ?p2 1"
  have o: "params init ?p1 = Some (9 / 10)" "params init ?p2 = Some 400000000"
    by (simp_all add: init_params)
  from half_efficacy_freedom_returns[of 0] obtain r1 where "fst (make_decision ?s1) = Inr r1"
    by blast
  from two_way_inner_skip[OF this] obtain acc1 where
    i1: "two_way_inner ?p1 (1 / 2) ?p2 [0, 1] [] init = two_way_inner ?p1 (1 / 2) ?p2 [1] acc1 ?s1"
    by blast
  have s2: "?s2 = with_param (with_param init ?p1 (1 / 2)) ?p2 1"
    by (rule with_param_grid)
  from half_efficacy_freedom_returns[of 1] s2 obtain r2 where "fst (make_decision ?s2) = Inr r2"
    by auto
  from two_way_inner_skip[OF this] obtain acc2 where
    i2: "two_way_inner ?p1 (1 / 2) ?p2 [1] acc1 ?s1 = two_way_inner ?p1 (1 / 2) ?p2 [] acc2 ?s2"
    by blast
  from i1 i2 have inner1: "two_way_inner ?p1 (1 / 2) ?p2 [0, 1] [] init = (Inr acc2, ?s2)"
    by (simp add: two_way_inner_done del: two_way_inner.simps)
  let ?s3 = "with_param (with_param ?s2 ?p1 (- (1 / 2))) ?p2 0"
  have s3: "?s3 = with_param negative_efficacy ?p2 0"
    unfolding s2 by (simp add: with_param_grid negative_efficacy_def)
  have "fst (make_decision ?s3) = Inl TypeError"
    unfolding s3 by (simp add: negative_efficacy_freedom_raises)
  from two_way_inner_stop[OF this]
  have inner2: "two_way_inner ?p1 (- (1 / 2)) ?p2 [0, 1] acc2 ?s2
      = (Inl TypeError, with_param negative_efficacy ?p2 0)"
    by (simp only: s3)
  have "two_way_outer ?p1 [1 / 2, - (1 / 2)] ?p2 [0, 1] [] init
      = (Inl TypeError, with_param negative_efficacy ?p2 0)"
    by (simp add: two_way_outer_step inner1 inner2
          del: two_way_outer.simps two_way_inner.simps)
  then show ?thesis
    by (simp add: two_way_analysis_unfold[OF o] del: two_way_outer.simps)
qed

lemma sensitivity_loop_first_failure:
  assumes "\<forall>u\<in>set pre. \<exists>r. fst (make_decision (with_param s p u)) = Inr r"
    and "fst (make_decision (with_param s p v)) = Inl e"
  shows "sensitivity_loop p (pre @ v # post) acc s = (Inl e, with_param s p v)"
  using assms
proof (induction pre arbitrary: acc s)
  case Nil
  then show ?case using sensitivity_loop_stop[of s p v e post acc] by simp
next
  case (Cons u pre)
  let ?s1 = "with_param s p u"
  from Cons.prems(1) obtain r where "fst (make_decision ?s1) = Inr r" by auto
  from sensitivity_loop_skip[OF this, of "pre @ v # post" acc] obtain acc' where
    step: "sensitivity_loop p (u # pre @ v # post) acc s
           = sensitivity_loop p (pre @ v # post) acc' ?s1"
    by blast
  have "sensitivity_loop p (pre @ v # post) acc' ?s1 = (Inl e, with_param ?s1 p v)"
    using Cons.prems by (intro Cons.IH) (simp_all add: with_param_twice)
  with step show ?case by (simp add: with_param_twice del: sensitivity_loop.simps)
qed

lemma two_way_inner_flat:
  "two_way_inner p1 v1 p2 vs2 acc = grid_loop p1 p2 (map (Pair v1) vs2) acc"
  by (induction vs2 arbitrary: acc) simp_all

lemma py_bind_assoc: "py_bind (py_bind m f) g = py_bind m (\<lambda>x. py_bind (f x) g)"
  by (auto simp: py_bind_def fun_eq_iff split: prod.splits sum.splits)

lemma py_bind_return_left: "py_bind (py_return x) f = f x"
  by (simp add: py_bind_def py_return_def)

lemma grid_loop_append:
  "grid_loop p1 p2 (xs @ ys) acc = py_bind (grid_loop p1 p2 xs acc) (grid_loop p1 p2 ys)"
proof (induction xs arbitrary: acc)
  case Nil
  then show ?case by (simp add: py_bind_return_left)
next
  case (Cons x xs)
  obtain a b where x: "x = (a, b)" by (cases x)
  show ?case
    unfolding x
    by (simp add: Cons.IH py_bind_assoc case_prod_unfold)
qed

lemma two_way_outer_flat:
  "two_way_outer p1 vs1 p2 vs2 acc = grid_loop p1 p2 (List.product vs1 vs2) acc"
proof (induction vs1 arbitrary: acc)
  case Nil
  then show ?case by simp
next
  case (Cons v1 vs1)
  have rest: "two_way_outer p1 vs1 p2 vs2 = grid_loop p1 p2 (List.product vs1 vs2)"
    by (rule ext) (rule Cons.IH)
  show ?case
    by (simp add: rest two_way_inner_flat grid_loop_append del: two_way_inner.simps)
qed

lemma grid_loop_step:
  "grid_loop p1 p2 ((v1, v2) # pairs) acc s =
     (case fst (make_decision (with_param (with_param s p1 v1) p2 v2)) of
        Inl e \<Rightarrow> (Inl e, with_param (with_param s p1 v1) p2 v2)
      | Inr (d, um, uv) \<Rightarrow>
          grid_loop p1 p2 pairs (acc @ [two_way_row p1 v1 p2 v2 d])
            (with_param (with_param s p1 v1) p2 v2))"
  by (simp add: py_bind_def setitem_apply
        bind_read_only[OF read_only_make_decision, unfolded py_bind_def]
        split: sum.splits prod.splits)

lemma grid_loop_first_failure:
  assumes "\<forall>(a, b)\<in>set pre. \<exists>r. fst (make_decision (with_param (with_param s p1 a) p2 b)) = Inr r"
    and "fst (make_decision (with_param (with_param s p1 v1) p2 v2)) = Inl e"
  shows "grid_loop p1 p2 (pre @ (v1, v2) # post) acc s
           = (Inl e, with_param (with_param s p1 v1) p2 v2)"
  using assms
proof (induction pre arbitrary: acc s)
  case Nil
  then show ?case by (simp add: grid_loop_step del: grid_loop.simps)
next
  case (Cons x pre)
  obtain a b where x: "x = (a, b)" by (cases x)
  let ?s1 = "with_param (with_param s p1 a) p2 b"
  from Cons.prems(1) x obtain d um uv where ok: "fst (make_decision ?s1) = Inr (d, um, uv)"
    by (cases "fst (make_decision ?s1)") auto
  have "grid_loop p1 p2 (pre @ (v1, v2) # post) (acc @ [two_way_row p1 a p2 b d]) ?s1
          = (Inl e, with_param (with_param ?s1 p1 v1) p2 v2)"
    using Cons.prems by (intro Cons.IH) (auto simp: with_param_grid)
  then show ?case
    unfolding x using ok
    by (simp add: grid_loop_step with_param_grid del: grid_loop.simps)
qed

text \<open>
  C3, amended. A sweep has no handler around its loop. When \<open>make_decision\<close> returns for
  the values before \<open>v\<close> and raises \<open>e\<close> at \<open>v\<close>, the sweep raises \<open>e\<close> and stops there: the
  state it leaves is the state of that failing call, with the swept parameter at \<open>v\<close>;
  nothing puts the original value back. The same holds for \<open>two_way_analysis\<close> and the
  first failing pair in the order of the iteration, with both swept parameters left at
  that pair.
\<close>

theorem failed_sweep_leaves_failing_value:
  "(params s p \<noteq> None \<longrightarrow>
      (\<forall>u\<in>set pre. \<exists>r. fst (make_decision (with_param s p u)) = Inr r) \<longrightarrow>
      fst (make_decision (with_param s p v)) = Inl e \<longrightarrow>
      sensitivity_analysis p (pre @ v # post) s = (Inl e, with_param s p v))
   \<and> (params s p1 \<noteq> None \<longrightarrow> params s p2 \<noteq> None \<longrightarrow>
      List.product vs1 vs2 = pre2 @ (v1, v2) # post2 \<longrightarrow>
      (\<forall>(a, b)\<in>set pre2.
          \<exists>r. fst (make_decision (with_param (with_param s p1 a) p2 b)) = Inr r) \<longrightarrow>
      fst (make_decision (with_param (with_param s p1 v1) p2 v2)) = Inl e \<longrightarrow>
      two_way_analysis p1 vs1 p2 vs2 s = (Inl e, with_param (with_param s p1 v1) p2 v2))"
proof (intro conjI impI)
  assume "params s p \<noteq> None"
    and ok: "\<forall>u\<in>set pre. \<exists>r. fst (make_decision (with_param s p u)) = Inr r"
    and bad: "fst (make_decision (with_param s p v)) = Inl e"
  then obtain orig where orig: "params s p = Some orig" by auto
  from sensitivity_loop_first_failure[OF ok bad]
  have "sensitivity_loop p (pre @ v # post) [] s = (Inl e, with_param s p v)" .
  then show "sensitivity_analysis p (pre @ v # post) s = (Inl e, with_param s p v)"
    by (simp add: sensitivity_analysis_unfold[OF orig])
next
  assume "params s p1 \<noteq> None" and "params s p2 \<noteq> None"
    and split: "List.product vs1 vs2 = pre2 @ (v1, v2) # post2"
    and ok: "\<forall>(a, b)\<in>set pre2.
          \<exists>r. fst (make_decision (with_param (with_param s p1 a) p2 b)) = Inr r"
    and bad: "fst (make_decision (with_param (with_param s p1 v1) p2 v2)) = Inl e"
  then obtain o1 o2 where o: "params s p1 = Some o1" "params s p2 = Some o2" by auto
  from grid_loop_first_failure[OF ok bad]
  have "two_way_outer p1 vs1 p2 vs2 [] s = (Inl e, with_param (with_param s p1 v1) p2 v2)"
    by (simp add: two_way_outer_flat split)
  then show "two_way_analysis p1 vs1 p2 vs2 s = (Inl e, with_param (with_param s p1 v1) p2 v2)"
    by (simp add: two_way_analysis_unfold[OF o])
qed

theorem failed_sweep_leaves_failing_value_witness:
  "sensitivity_analysis ''vaccine_efficacy'' ([1 / 2] @ - (1 / 2) # [3 / 4]) init
     = (Inl TypeError, with_param init ''vaccine_efficacy'' (- (1 / 2)))
   \<and> two_way_analysis ''vaccine_efficacy'' [1 / 2, - (1 / 2)] ''freedom_value'' [0, 1] init
     = (Inl TypeError,
        with_param (with_param init ''vaccine_efficacy'' (- (1 / 2))) ''freedom_value'' 0)"
proof -
  let ?e = "''vaccine_efficacy''" and ?f = "''freedom_value''"
  have known: "params init ?e \<noteq> None" "params init ?f \<noteq> None"
    by (simp_all add: init_params)
  have ok1: "\<forall>u\<in>set [1 / 2]. \<exists>r. fst (make_decision (with_param init ?e u)) = Inr r"
    using half_efficacy_returns by simp
  have bad1: "fst (make_decision (with_param init ?e (- (1 / 2)))) = Inl TypeError"
    using negative_efficacy_raises by (simp add: negative_efficacy_def)
  have split: "List.product [1 / 2, - (1 / 2)] [0, 1 :: real]
      = [(1 / 2, 0), (1 / 2, 1)] @ (- (1 / 2), 0) # [(- (1 / 2), 1)]"
    by simp
  have ok2: "\<forall>(a, b)\<in>set [(1 / 2, 0), (1 / 2, 1 :: real)].
      \<exists>r. fst (make_decision (with_param (with_param init ?e a) ?f b)) = Inr r"
    using half_efficacy_freedom_returns by simp
  have bad2: "fst (make_decision (with_param (with_param init ?e (- (1 / 2))) ?f 0))
      = Inl TypeError"
    using negative_efficacy_freedom_raises[of 0] by (simp add: negative_efficacy_def)
  from failed_sweep_leaves_failing_value
         [of init ?e "[1 / 2]" "- (1 / 2)" TypeError "[3 / 4]"]
       known ok1 bad1
  have one: "sensitivity_analysis ?e ([1 / 2] @ - (1 / 2) # [3 / 4]) init
     = (Inl TypeError, with_param init ?e (- (1 / 2)))"
    by blast
  from failed_sweep_leaves_failing_value
         [of init _ _ _ TypeError _ ?e ?f "[1 / 2, - (1 / 2)]" "[0, 1]"
             "[(1 / 2, 0), (1 / 2, 1)]" "- (1 / 2)" 0 "[(- (1 / 2), 1)]"]
       known split ok2 bad2
  have two: "two_way_analysis ?e [1 / 2, - (1 / 2)] ?f [0, 1] init
     = (Inl TypeError, with_param (with_param init ?e (- (1 / 2))) ?f 0)"
    by blast
  from one two show ?thesis by (rule conjI)
qed

text \<open>
  On the default model, sweeping \<open>vaccine_efficacy\<close> over \<open>[0.5, -0.5, 0.75]\<close> raises
  \<open>TypeError\<close> at the second value and leaves \<open>vaccine_efficacy\<close> at -0.5 instead of 0.9; the
  two-way sweep of \<open>vaccine_efficacy\<close> over \<open>[0.5, -0.5]\<close> and \<open>freedom_value\<close> over \<open>[0, 1]\<close>
  leaves them at -0.5 and 0.
\<close>

theorem failed_sweep_counterexample:
  "sensitivity_analysis ''vaccine_efficacy'' [1 / 2, - (1 / 2), 3 / 4] init
     = (Inl TypeError, negative_efficacy)
   \<and> params init ''vaccine_efficacy'' = Some (9 / 10)
   \<and> params negative_efficacy ''vaccine_efficacy'' = Some (- (1 / 2))
   \<and> two_way_analysis ''vaccine_efficacy'' [1 / 2, - (1 / 2)] ''freedom_value'' [0, 1] init
     = (Inl TypeError, with_param negative_efficacy ''freedom_value'' 0)
   \<and> params init ''freedom_value'' = Some 400000000
   \<and> params (with_param negative_efficacy ''freedom_value'' 0) ''vaccine_efficacy''
       = Some (- (1 / 2))
   \<and> params (with_param negative_efficacy ''freedom_value'' 0) ''freedom_value'' = Some 0"
  by (simp add: failing_sensitivity_sweep failing_two_way_sweep init_params
        negative_efficacy_params params_with_param)

subsection \<open>Updating parameters\<close>

lemma set_parameters_step:
  "set_parameters ((key, v) # kwargs) s =
     set_parameters kwargs
       (if params s key \<noteq> None then with_param s key v
        else s\<lparr>stdout := stdout s @ [unknown_parameter_warning key]\<rparr>)"
  by (simp add: py_bind_def contains_def setitem_apply print_def)

lemma set_parameters_returns: "fst (set_parameters kwargs s) = Inr ()"
proof (induction kwargs arbitrary: s)
  case Nil
  then show ?case by (simp add: py_return_apply)
next
  case (Cons kv kwargs)
  then show ?case
    by (cases kv) (simp add: set_parameters_step del: set_parameters.simps)
qed

lemma set_parameters_params:
  "params (snd (set_parameters kwargs s)) k =
     (if params s k = None then None
      else case map_of (rev kwargs) k of Some v \<Rightarrow> Some v | None \<Rightarrow> params s k)"
proof (induction kwargs arbitrary: s)
  case Nil
  then show ?case by (simp add: py_return_apply)
next
  case (Cons kv kwargs)
  obtain key v where kv: "kv = (key, v)" by (cases kv)
  show ?case
  proof (cases "params s key = None")
    case True
    then show ?thesis
      unfolding kv set_parameters_step Cons.IH
      by (auto simp: map_add_def split: option.splits)
  next
    case False
    then show ?thesis
      unfolding kv set_parameters_step Cons.IH
      by (auto simp: map_add_def params_with_param split: option.splits)
  qed
qed

lemma set_parameters_stdout:
  "stdout (snd (set_parameters kwargs s)) =
     stdout s @ map unknown_parameter_warning (filter (\<lambda>k. params s k = None) (map fst kwargs))"
proof (induction kwargs arbitrary: s)
  case Nil
  then show ?case by (simp add: py_return_apply)
next
  case (Cons kv kwargs)
  obtain key v where kv: "kv = (key, v)" by (cases kv)
  have same: "(params (with_param s key v) k = None) = (params s k = None)"
    if "params s key \<noteq> None" for k
    using that by (simp add: params_with_param)
  show ?case
  proof (cases "params s key = None")
    case True
    then show ?thesis
      unfolding kv set_parameters_step Cons.IH by simp
  next
    case False
    then show ?thesis
      unfolding kv set_parameters_step Cons.IH
      by (simp add: same stdout_with_param)
  qed
qed

text \<open>
  C8. \<open>set_parameters\<close> never raises. For keyword arguments (whose names are distinct):
  every pair whose key is in \<open>self.params\<close> is stored, whatever other keys are passed;
  a key that is not in \<open>self.params\<close> is not inserted and only adds one warning line to
  the output, in the order of the arguments; keys not passed keep their values.
\<close>

theorem set_parameters_applies_known_keys:
  assumes "distinct (map fst kwargs)"
  shows "fst (set_parameters kwargs s) = Inr ()
    \<and> (\<forall>(k, v)\<in>set kwargs. params s k \<noteq> None \<longrightarrow>
          params (snd (set_parameters kwargs s)) k = Some v)
    \<and> (\<forall>k. k \<notin> fst ` set kwargs \<longrightarrow>
          params (snd (set_parameters kwargs s)) k = params s k)
    \<and> (\<forall>k. params s k = None \<longrightarrow> params (snd (set_parameters kwargs s)) k = None)
    \<and> stdout (snd (set_parameters kwargs s)) =
        stdout s @ map unknown_parameter_warning
                     (filter (\<lambda>k. params s k = None) (map fst kwargs))"
proof (intro conjI)
  show "fst (set_parameters kwargs s) = Inr ()" by (rule set_parameters_returns)
  have d: "distinct (map fst (rev kwargs))" using assms by (simp add: rev_map[symmetric])
  show "\<forall>(k, v)\<in>set kwargs. params s k \<noteq> None \<longrightarrow>
          params (snd (set_parameters kwargs s)) k = Some v"
  proof (clarify)
    fix k v y assume "(k, v) \<in> set kwargs" and "params s k = Some y"
    then have "map_of (rev kwargs) k = Some v" using d by simp
    then show "params (snd (set_parameters kwargs s)) k = Some v"
      using \<open>params s k = Some y\<close> by (simp add: set_parameters_params)
  qed
  show "\<forall>k. k \<notin> fst ` set kwargs \<longrightarrow> params (snd (set_parameters kwargs s)) k = params s k"
  proof (intro allI impI)
    fix k assume "k \<notin> fst ` set kwargs"
    then have "map_of (rev kwargs) k = None" by (simp add: map_of_eq_None_iff)
    then show "params (snd (set_parameters kwargs s)) k = params s k"
      by (simp add: set_parameters_params)
  qed
  show "\<forall>k. params s k = None \<longrightarrow> params (snd (set_parameters kwargs s)) k = None"
    by (simp add: set_parameters_params)
  show "stdout (snd (set_parameters kwargs s)) =
        stdout s @ map unknown_parameter_warning
                     (filter (\<lambda>k. params s k = None) (map fst kwargs))"
    by (rule set_parameters_stdout)
qed

text \<open>An unknown key first, a known key after it: the known key is still applied.\<close>

theorem set_parameters_applies_known_keys_witness:
  "params (snd (set_parameters [(''efficacy'', 1 / 2), (''risk_aversion'', 2)] init))
       ''risk_aversion'' = Some 2
   \<and> params (snd (set_parameters [(''efficacy'', 1 / 2), (''risk_aversion'', 2)] init))
       ''efficacy'' = None
   \<and> params (snd (set_parameters [(''efficacy'', 1 / 2), (''risk_aversion'', 2)] init))
       ''vaccine_efficacy'' = Some (9 / 10)
   \<and> stdout (snd (set_parameters [(''efficacy'', 1 / 2), (''risk_aversion'', 2)] init)) =
       [unknown_parameter_warning ''efficacy'']"
proof -
  have d: "distinct (map fst [(''efficacy'', 1 / 2 :: real), (''risk_aversion'', 2)])" by simp
  show ?thesis
    using set_parameters_applies_known_keys [OF d, of init]
    by (simp add: init_def default_params_def)
qed

subsection \<open>The key set\<close>

lemma sensitivity_analysis_dom:
  "dom (params (snd (sensitivity_analysis p vs s))) = dom (params s)"
proof (cases "params s p")
  case None
  then show ?thesis by (simp add: sensitivity_analysis_def bind_getitem)
next
  case (Some orig)
  then have known: "params s p \<noteq> None" by simp
  show ?thesis
  proof (cases "sensitivity_loop p vs [] s")
    case (Pair res s')
    show ?thesis
    proof (cases res)
      case (Inl e)
      with Pair sensitivity_loop_raises[of p vs "[]" s e s']
      obtain v where "s' = with_param s p v" by blast
      with Pair Inl known show ?thesis
        by (simp add: sensitivity_analysis_unfold[OF Some] dom_with_param)
    next
      case (Inr rows)
      with Pair sensitivity_loop_returns[of p vs "[]" s rows s']
      have "s' = (if vs = [] then s else with_param s p (last vs))" by blast
      then have "with_param s' p orig = s"
        using Some by (simp add: with_param_twice with_param_restore)
      with Pair Inr show ?thesis by (simp add: sensitivity_analysis_unfold[OF Some])
    qed
  qed
qed

lemma two_way_analysis_dom:
  "dom (params (snd (two_way_analysis p1 vs1 p2 vs2 s))) = dom (params s)"
proof (cases "params s p1")
  case None
  then show ?thesis by (simp add: two_way_analysis_def bind_getitem)
next
  case o1: (Some o1)
  show ?thesis
  proof (cases "params s p2")
    case None
    with o1 show ?thesis by (simp add: two_way_analysis_def bind_getitem)
  next
    case o2: (Some o2)
    note unfold = two_way_analysis_unfold[OF o1 o2]
    have grid: "dom (params (with_param (with_param s p1 a) p2 b)) = dom (params s)" for a b
      using o1 o2 by (auto simp: params_with_param)
    show ?thesis
    proof (cases "two_way_outer p1 vs1 p2 vs2 [] s")
      case (Pair res s')
      show ?thesis
      proof (cases res)
        case (Inl e)
        with Pair two_way_outer_raises[of p1 vs1 p2 vs2 "[]" s e s']
        obtain a b where "s' = with_param (with_param s p1 a) p2 b" by blast
        with Pair Inl show ?thesis by (simp add: unfold grid)
      next
        case (Inr rows)
        with Pair two_way_outer_returns[of p1 vs1 p2 vs2 "[]" s rows s']
        have "s' = (if vs1 = [] \<or> vs2 = [] then s
                    else with_param (with_param s p1 (last vs1)) p2 (last vs2))"
          by blast
        then have "with_param (with_param s' p1 o1) p2 o2 = with_param (with_param s p1 o1) p2 o2"
          by (simp add: with_param_grid)
        with Pair Inr show ?thesis by (simp add: unfold grid)
      qed
    qed
  qed
qed

lemma set_parameters_dom: "dom (params (snd (set_parameters kwargs s))) = dom (params s)"
  by (auto simp: dom_def set_parameters_params split: option.splits if_splits)

text \<open>
  C10. The constructor builds a dictionary with exactly the eight parameter names as
  keys, and no operation changes the key set of \<open>self.params\<close>, whether it returns or
  raises: \<open>set_parameters\<close> (which never inserts a key it does not know), both sweeps, and
  \<open>make_decision\<close>.
\<close>

theorem key_set_invariant:
  "dom (params init) = set parameter_names
   \<and> dom (params (snd (set_parameters kwargs s))) = dom (params s)
   \<and> dom (params (snd (sensitivity_analysis p vs s))) = dom (params s)
   \<and> dom (params (snd (two_way_analysis p1 vs1 p2 vs2 s))) = dom (params s)
   \<and> dom (params (snd (make_decision s))) = dom (params s)"
  by (simp add: init_dom set_parameters_dom sensitivity_analysis_dom two_way_analysis_dom
        make_decision_state)

end
